theory Spec2Isabelle
  imports Complex_Main
begin

section \<open>JavaScript strings\<close>

text \<open>
  A JavaScript string is a sequence of UTF-16 code units; \<open>length\<close> counts code units.
  A code unit is modelled by its number. Literals of the source are ASCII and are written
  through \<open>asc\<close>.
\<close>

type_synonym jsstring = "nat list"

definition asc :: "string \<Rightarrow> jsstring" where
  "asc s = map of_char s"

text \<open>
  \<open>String.prototype.trim\<close> strips WhiteSpace and LineTerminator code points from both
  ends: TAB, LF, VT, FF, CR, SP, NBSP, U+1680, U+2000..U+200A, U+2028, U+2029, U+202F,
  U+205F, U+3000 and U+FEFF. The regular-expression class \<open>\s\<close> is the same set.
\<close>

definition isWhiteSpace :: "nat \<Rightarrow> bool" where
  "isWhiteSpace c =
     (c = 9 \<or> c = 10 \<or> c = 11 \<or> c = 12 \<or> c = 13 \<or> c = 32 \<or> c = 160 \<or> c = 5760 \<or>
      (8192 \<le> c \<and> c \<le> 8202) \<or> c = 8232 \<or> c = 8233 \<or> c = 8239 \<or> c = 8287 \<or>
      c = 12288 \<or> c = 65279)"

definition trim :: "jsstring \<Rightarrow> jsstring" where
  "trim s = rev (dropWhile isWhiteSpace (rev (dropWhile isWhiteSpace s)))"

section \<open>Regular expressions of the validator\<close>

text \<open>
  The four patterns of \<open>validateLocationInput\<close> are sequences of single-character
  classes, each taken once, one or more times (\<open>+\<close>) or zero or more times (\<open>*\<close>).
  \<open>match_here\<close> matches such a sequence at the start of a string, \<open>regex_test\<close> is
  \<open>RegExp.prototype.test\<close> without the sticky or global flag: a match at some position.
\<close>

datatype quant = One | Plus | Star

type_synonym atom = "(nat \<Rightarrow> bool) \<times> quant"

fun match_here :: "atom list \<Rightarrow> jsstring \<Rightarrow> bool" where
  "match_here [] s = True"
| "match_here ((c, One) # r) [] = False"
| "match_here ((c, One) # r) (x # xs) = (c x \<and> match_here r xs)"
| "match_here ((c, Plus) # r) [] = False"
| "match_here ((c, Plus) # r) (x # xs) = (c x \<and> match_here ((c, Star) # r) xs)"
| "match_here ((c, Star) # r) [] = match_here r []"
| "match_here ((c, Star) # r) (x # xs) =
     ((c x \<and> match_here ((c, Star) # r) xs) \<or> match_here r (x # xs))"

fun regex_test :: "atom list \<Rightarrow> jsstring \<Rightarrow> bool" where
  "regex_test re [] = match_here re []"
| "regex_test re (x # xs) = (match_here re (x # xs) \<or> regex_test re xs)"

text \<open>
  With the \<open>i\<close> flag and without the \<open>u\<close> flag a pattern character matches a code unit
  when both have the same canonical form. The canonical form of an ASCII letter is its
  upper case; a code unit from 128 on never canonicalizes to an ASCII one, so against the
  ASCII characters of these patterns only the ASCII case pairs match.
\<close>

definition canonicalize :: "nat \<Rightarrow> nat" where
  "canonicalize c = (if 97 \<le> c \<and> c \<le> 122 then c - 32 else c)"

definition ci :: "char \<Rightarrow> nat \<Rightarrow> bool" where
  "ci p c = (canonicalize c = canonicalize (of_char p))"

definition lit :: "string \<Rightarrow> atom list" where
  "lit s = map (\<lambda>p. (ci p, One)) s"

definition isWordChar :: "nat \<Rightarrow> bool" where
  "isWordChar c = ((48 \<le> c \<and> c \<le> 57) \<or> (65 \<le> c \<and> c \<le> 90) \<or> c = 95 \<or> (97 \<le> c \<and> c \<le> 122))"

definition dangerousPatterns :: "atom list list" where
  "dangerousPatterns =
     [lit ''<script'',
      lit ''javascript:'',
      lit ''on'' @ [(isWordChar, Plus), (isWhiteSpace, Star), (ci CHR ''='', One)],
      lit ''data:'']"

section \<open>Geocoding service\<close>

datatype error_code = INVALID_INPUT | NO_RESULTS | API_ERROR | NETWORK_ERROR

text \<open>
  \<open>GeocodingError\<close> is declared as an interface: the shape of an object with a message
  and a code. An interface is erased when the module is compiled, so at run time the
  module has no binding of that name.
\<close>

record GeocodingError =
  message :: jsstring
  code :: error_code

text \<open>
  What a promise of the service or of the controller can reject with: one of the
  exceptions of the host, or a plain object of the shape \<open>GeocodingError\<close>. Only such an
  object has a code.
\<close>

datatype thrown = ReferenceError | URIError | TypeError | SyntaxError | ErrorObject GeocodingError

fun thrown_code :: "thrown \<Rightarrow> error_code option" where
  "thrown_code (ErrorObject e) = Some (code e)"
| "thrown_code ReferenceError = None"
| "thrown_code URIError = None"
| "thrown_code TypeError = None"
| "thrown_code SyntaxError = None"

text \<open>
  \<open>throw new GeocodingError(payload)\<close> evaluates the name \<open>GeocodingError\<close> first;
  the name is unbound, so what is thrown is a ReferenceError and no object is built.
  \<open>error instanceof GeocodingError\<close> evaluates the same name and raises the same
  exception instead of giving a truth value.
\<close>

definition new_GeocodingError :: "GeocodingError \<Rightarrow> thrown" where
  "new_GeocodingError payload = ReferenceError"

definition instanceof_GeocodingError :: "thrown \<Rightarrow> thrown + bool" where
  "instanceof_GeocodingError error = Inl ReferenceError"

text \<open>
  The values a field of an upstream JSON record can hold, \<open>JUndefined\<close> for a field that
  is missing. The number type and its conversions belong to the host and are parameters.
\<close>

datatype 'n jsval = JUndefined | JNull | JBool bool | JNum 'n | JStr jsstring

record 'n upstream =
  up_name :: "'n jsval"
  up_region :: "'n jsval"
  up_country :: "'n jsval"
  up_lat :: "'n jsval"
  up_lon :: "'n jsval"

record 'n GeocodingResult =
  id' :: jsstring
  name :: "'n jsval"
  region :: "'n jsval"
  country :: "'n jsval"
  lat :: 'n
  lon :: 'n
  formatted_address :: jsstring

text \<open>
  The body of a response: not JSON at all (\<open>response.json()\<close> rejects), JSON that is not
  an array, or an array. An element of the array that is \<open>null\<close> has no properties
  (reading one raises a TypeError) and is \<open>None\<close>.
\<close>

datatype 'n json_body = InvalidJson | NonArray | JsonArray "'n upstream option list"

record 'n response =
  status :: nat
  body :: "'n json_body"

datatype 'n fetch_outcome = Rejects | Responds "'n response"

text \<open>\<open>Response.ok\<close> of the Fetch standard: the status is in the range 200 to 299.\<close>

definition response_ok :: "'n response \<Rightarrow> bool" where
  "response_ok r = (200 \<le> status r \<and> status r \<le> 299)"

text \<open>
  The host functions the service calls: \<open>fetch\<close> by URL, \<open>encodeURIComponent\<close>
  (\<open>None\<close> is its URIError on a lone surrogate), and for numbers \<open>ToString\<close>,
  \<open>ToBoolean\<close> and \<open>parseFloat\<close>.
\<close>

record 'n host =
  fetch :: "jsstring \<Rightarrow> 'n fetch_outcome"
  encodeURIComponent :: "jsstring \<Rightarrow> jsstring option"
  NumberToString :: "'n \<Rightarrow> jsstring"
  NumberToBoolean :: "'n \<Rightarrow> bool"
  parseFloat :: "jsstring \<Rightarrow> 'n"

fun ToString :: "'n host \<Rightarrow> 'n jsval \<Rightarrow> jsstring" where
  "ToString h JUndefined = asc ''undefined''"
| "ToString h JNull = asc ''null''"
| "ToString h (JBool b) = (if b then asc ''true'' else asc ''false'')"
| "ToString h (JNum n) = NumberToString h n"
| "ToString h (JStr s) = s"

fun ToBoolean :: "'n host \<Rightarrow> 'n jsval \<Rightarrow> bool" where
  "ToBoolean h JUndefined = False"
| "ToBoolean h JNull = False"
| "ToBoolean h (JBool b) = b"
| "ToBoolean h (JNum n) = NumberToBoolean h n"
| "ToBoolean h (JStr s) = (s \<noteq> [])"

definition API_KEY :: jsstring where
  "API_KEY = asc ''YOUR_API_KEY''"

definition BASE_URL :: jsstring where
  "BASE_URL = asc ''https://api.weatherapi.com/v1''"

definition search_url :: "jsstring \<Rightarrow> jsstring" where
  "search_url q = BASE_URL @ asc ''/search.json?key='' @ API_KEY @ asc ''&q='' @ q"

definition invalid_input_error :: GeocodingError where
  "invalid_input_error =
     \<lparr>message = asc ''Location must be at least 2 characters long'', code = INVALID_INPUT\<rparr>"

definition invalid_key_error :: GeocodingError where
  "invalid_key_error =
     \<lparr>message = asc ''Invalid API key. Please check your configuration.'', code = API_ERROR\<rparr>"

definition too_many_requests_error :: GeocodingError where
  "too_many_requests_error =
     \<lparr>message = asc ''Too many requests. Please try again later.'', code = API_ERROR\<rparr>"

definition fetch_failed_error :: GeocodingError where
  "fetch_failed_error = \<lparr>message = asc ''Failed to fetch location data'', code = API_ERROR\<rparr>"

definition no_results_error :: "jsstring \<Rightarrow> GeocodingError" where
  "no_results_error cleanedInput =
     \<lparr>message = asc ''No locations found for \"'' @ cleanedInput @
                 asc ''\". Try a different search term.'',
      code = NO_RESULTS\<rparr>"

definition network_error :: GeocodingError where
  "network_error =
     \<lparr>message = asc ''Network error. Please check your connection and try again.'',
      code = NETWORK_ERROR\<rparr>"

text \<open>The callback of \<open>results.map\<close>, lines 68 to 76.\<close>

definition toResult :: "'n host \<Rightarrow> 'n upstream \<Rightarrow> 'n GeocodingResult" where
  "toResult h result =
     \<lparr>id' = ToString h (up_lat result) @ asc ''-'' @ ToString h (up_lon result),
      name = up_name result,
      region = (if ToBoolean h (up_region result) then up_region result else JStr []),
      country = up_country result,
      lat = parseFloat h (ToString h (up_lat result)),
      lon = parseFloat h (ToString h (up_lon result)),
      formatted_address =
        ToString h (up_name result) @ asc '', '' @
        (if ToBoolean h (up_region result) then ToString h (up_region result) @ asc '', '' else []) @
        ToString h (up_country result)\<rparr>"

text \<open>\<open>results.map\<close>: \<open>None\<close> when the callback raises on a \<open>null\<close> element.\<close>

fun map_results :: "'n host \<Rightarrow> 'n upstream option list \<Rightarrow> 'n GeocodingResult list option" where
  "map_results h [] = Some []"
| "map_results h (None # rs) = None"
| "map_results h (Some r # rs) =
     (case map_results h rs of None \<Rightarrow> None | Some ys \<Rightarrow> Some (toResult h r # ys))"

text \<open>
  The \<open>try\<close> block of \<open>geocodeLocation\<close>, lines 36 to 76: the URLs it fetched, in
  order, and either what it throws or the list it returns. \<open>encodeURIComponent\<close> raises
  a URIError, a failed \<open>fetch\<close> rejects with a TypeError, \<open>response.json()\<close> rejects
  with a SyntaxError, and the callback of \<open>map\<close> raises a TypeError on \<open>null\<close>.
\<close>

definition try_block ::
  "'n host \<Rightarrow> jsstring \<Rightarrow> jsstring list \<times> (thrown + 'n GeocodingResult list)" where
  "try_block h cleanedInput =
     (case encodeURIComponent h cleanedInput of
        None \<Rightarrow> ([], Inl URIError)
      | Some q \<Rightarrow>
          (case fetch h (search_url q) of
             Rejects \<Rightarrow> ([search_url q], Inl TypeError)
           | Responds response \<Rightarrow>
               ([search_url q],
                if \<not> response_ok response then
                  if status response = 401 then Inl (new_GeocodingError invalid_key_error)
                  else if status response = 429 then Inl (new_GeocodingError too_many_requests_error)
                  else Inl (new_GeocodingError fetch_failed_error)
                else
                  (case body response of
                     InvalidJson \<Rightarrow> Inl SyntaxError
                   | NonArray \<Rightarrow> Inl (new_GeocodingError (no_results_error cleanedInput))
                   | JsonArray results \<Rightarrow>
                       if results = [] then Inl (new_GeocodingError (no_results_error cleanedInput))
                       else
                         (case map_results h results of
                            None \<Rightarrow> Inl TypeError
                          | Some rs \<Rightarrow> Inr rs)))))"

text \<open>The \<open>catch\<close> block, lines 78 to 88: what it throws for the error it caught.\<close>

definition catch_block :: "thrown \<Rightarrow> thrown" where
  "catch_block error =
     (case instanceof_GeocodingError error of
        Inl raised \<Rightarrow> raised
      | Inr True \<Rightarrow> error
      | Inr False \<Rightarrow> new_GeocodingError network_error)"

text \<open>
  \<open>geocodeLocation\<close> returns the URLs it fetched, in order, and the outcome of its
  promise: \<open>Inl\<close> what it rejects with, \<open>Inr\<close> the list it resolves to. The argument
  is \<open>None\<close> for \<open>undefined\<close> or \<open>null\<close>.
\<close>

definition geocodeLocation ::
  "'n host \<Rightarrow> jsstring option \<Rightarrow> jsstring list \<times> (thrown + 'n GeocodingResult list)" where
  "geocodeLocation h locationString =
     (case locationString of
        None \<Rightarrow> ([], Inl (new_GeocodingError invalid_input_error))
      | Some s \<Rightarrow>
          if s = [] \<or> length (trim s) < 2 then ([], Inl (new_GeocodingError invalid_input_error))
          else
            let cleanedInput = trim s in
            (case try_block h cleanedInput of
               (calls, Inr rs) \<Rightarrow> (calls, Inr rs)
             | (calls, Inl error) \<Rightarrow> (calls, Inl (catch_block error))))"

record validation =
  isValid :: bool
  error :: "jsstring option"

definition validateLocationInput :: "jsstring option \<Rightarrow> validation" where
  "validateLocationInput input =
     (case input of
        None \<Rightarrow> \<lparr>isValid = False, error = Some (asc ''Location is required'')\<rparr>
      | Some s \<Rightarrow>
          if s = [] then \<lparr>isValid = False, error = Some (asc ''Location is required'')\<rparr>
          else
            let trimmed = trim s in
            if length trimmed < 2 then
              \<lparr>isValid = False, error = Some (asc ''Location must be at least 2 characters long'')\<rparr>
            else if length trimmed > 100 then
              \<lparr>isValid = False, error = Some (asc ''Location must be less than 100 characters'')\<rparr>
            else if list_ex (\<lambda>pattern. regex_test pattern trimmed) dangerousPatterns then
              \<lparr>isValid = False, error = Some (asc ''Invalid characters in location'')\<rparr>
            else \<lparr>isValid = True, error = None\<rparr>)"

text \<open>
  \<open>getSuggestions\<close> reads \<open>partialInput.length\<close> first, so its argument is a string.
\<close>

definition getSuggestions ::
  "'n host \<Rightarrow> jsstring \<Rightarrow> jsstring list \<times> (thrown + 'n GeocodingResult list)" where
  "getSuggestions h partialInput =
     (if length partialInput < 3 then ([], Inr [])
      else
        (case geocodeLocation h (Some partialInput) of
           (calls, Inr rs) \<Rightarrow> (calls, Inr rs)
         | (calls, Inl e) \<Rightarrow> (calls, Inr [])))"

section \<open>Saved locations of the presentation layer\<close>

record 'n Location =
  loc_id :: jsstring
  loc_name :: jsstring
  loc_region :: jsstring
  loc_country :: jsstring
  loc_lat :: 'n
  loc_lon :: 'n

definition isLocationSaved :: "'n Location list \<Rightarrow> 'n Location \<Rightarrow> bool" where
  "isLocationSaved savedLocations location =
     list_ex (\<lambda>saved. loc_id saved = loc_id location) savedLocations"

text \<open>
  \<open>toggleSavedLocation\<close> computes the new list from the list of the current render and
  stores it; the model returns the new list.
\<close>

definition toggleSavedLocation :: "'n Location list \<Rightarrow> 'n Location \<Rightarrow> 'n Location list" where
  "toggleSavedLocation savedLocations location =
     (if list_ex (\<lambda>saved. loc_id saved = loc_id location) savedLocations
      then filter (\<lambda>saved. loc_id saved \<noteq> loc_id location) savedLocations
      else savedLocations @ [location])"

section \<open>Search-state controller (useLocationSearch)\<close>

record options =
  debounceMs :: int
  minSearchLength :: int
  maxResults :: int

definition default_options :: options where
  "default_options = \<lparr>debounceMs = 300, minSearchLength = 3, maxResults = 10\<rparr>"

text \<open>\<open>xs.slice(0, end)\<close>: a negative \<open>end\<close> counts from the end of the array.\<close>

definition slice0 :: "'a list \<Rightarrow> int \<Rightarrow> 'a list" where
  "slice0 xs endIdx = take (nat (if endIdx < 0 then int (length xs) + endIdx else endIdx)) xs"

text \<open>
  A pending timer of the host: its handle, the time at which it is due, and the query its
  callback \<open>() => setDebouncedQuery(query)\<close> has captured.
\<close>

record timer =
  handle :: nat
  deadline :: nat
  captured :: jsstring

text \<open>
  The state of one controller instance together with the part of the host it acts on:
  the three \<open>useState\<close> cells, the \<open>useRef\<close> cell holding the last timer handle, the
  clock, the pending timers and the next fresh handle. \<open>commits\<close> is the trace of the
  queries committed by timer callbacks that ran, oldest first.
\<close>

record controller =
  searchQuery :: jsstring
  searchError :: "thrown option"
  debouncedQuery :: jsstring
  debounceRef :: "nat option"
  now :: nat
  timers :: "timer list"
  next_handle :: nat
  commits :: "jsstring list"

definition initial :: controller where
  "initial =
     \<lparr>searchQuery = [], searchError = None, debouncedQuery = [], debounceRef = None,
      now = 0, timers = [], next_handle = 1, commits = []\<rparr>"

definition clearTimeout :: "nat \<Rightarrow> controller \<Rightarrow> controller" where
  "clearTimeout tid w = w\<lparr>timers := filter (\<lambda>t. handle t \<noteq> tid) (timers w)\<rparr>"

text \<open>
  The delay of \<open>setTimeout\<close> is a signed 32-bit integer of the host: the number given
  is taken modulo \<open>2 ^ 32\<close> into the range from \<open>- 2 ^ 31\<close> to \<open>2 ^ 31 - 1\<close>, and a
  negative result counts as 0. So a delay of \<open>2 ^ 31\<close> is no delay at all.
\<close>

definition ToInt32 :: "int \<Rightarrow> int" where
  "ToInt32 n = (n + 2 ^ 31) mod 2 ^ 32 - 2 ^ 31"

definition timer_delay :: "int \<Rightarrow> nat" where
  "timer_delay delay = nat (ToInt32 delay)"

text \<open>
  \<open>setTimeout\<close> returns a fresh handle. A handle is a positive number in a browser and
  an object in Node, so a stored handle is truthy: the test \<open>if (debounceRef.current)\<close>
  is the test for \<open>Some\<close>.
\<close>

definition setTimeout :: "jsstring \<Rightarrow> int \<Rightarrow> controller \<Rightarrow> nat \<times> controller" where
  "setTimeout query delay w =
     (next_handle w,
      w\<lparr>timers := timers w @
          [\<lparr>handle = next_handle w, deadline = now w + timer_delay delay, captured = query\<rparr>],
        next_handle := Suc (next_handle w)\<rparr>)"

definition updateDebouncedQuery :: "options \<Rightarrow> jsstring \<Rightarrow> controller \<Rightarrow> controller" where
  "updateDebouncedQuery opts query w =
     (let w1 = (case debounceRef w of None \<Rightarrow> w | Some tid \<Rightarrow> clearTimeout tid w);
          (tid', w2) = setTimeout query (debounceMs opts) w1
      in w2\<lparr>debounceRef := Some tid'\<rparr>)"

definition handleSetSearchQuery :: "options \<Rightarrow> jsstring \<Rightarrow> controller \<Rightarrow> controller" where
  "handleSetSearchQuery opts query w =
     (let w1 = w\<lparr>searchQuery := query, searchError := None\<rparr>
      in if int (length query) \<ge> minSearchLength opts then updateDebouncedQuery opts query w1
         else w1\<lparr>debouncedQuery := []\<rparr>)"

definition clearResults :: "controller \<Rightarrow> controller" where
  "clearResults w =
     (let w1 = w\<lparr>searchQuery := [], debouncedQuery := [], searchError := None\<rparr>
      in case debounceRef w1 of None \<Rightarrow> w1 | Some tid \<Rightarrow> clearTimeout tid w1)"

text \<open>A timer that is due leaves the pending timers and its callback runs.\<close>

definition fire :: "timer \<Rightarrow> controller \<Rightarrow> controller" where
  "fire t w =
     w\<lparr>timers := filter (\<lambda>u. handle u \<noteq> handle t) (timers w),
       now := max (now w) (deadline t),
       debouncedQuery := captured t,
       commits := commits w @ [captured t]\<rparr>"

text \<open>
  Time passes: the timers due by then run in the order of their deadlines (the callbacks
  of this controller schedule no timer), then the clock shows the new time.
\<close>

definition elapse :: "nat \<Rightarrow> controller \<Rightarrow> controller" where
  "elapse d w =
     (let target = now w + d;
          due = sort_key deadline (filter (\<lambda>t. deadline t \<le> target) (timers w))
      in (foldl (\<lambda>w' t. fire t w') w due)\<lparr>now := target\<rparr>)"

text \<open>
  The \<open>queryFn\<close> given to \<open>useQuery\<close>, run for a committed debounced query: the URLs it
  fetched and the list it resolves to. It never rejects, so \<open>queryError\<close> stays unset
  and the block of lines 124 to 129 does nothing.
\<close>

definition queryFn ::
  "options \<Rightarrow> 'n host \<Rightarrow> jsstring \<Rightarrow> jsstring list \<times> 'n GeocodingResult list" where
  "queryFn opts h dq =
     (if dq = [] \<or> int (length dq) < minSearchLength opts then ([], [])
      else
        (case getSuggestions h dq of
           (calls, Inr results) \<Rightarrow> (calls, slice0 results (maxResults opts))
         | (calls, Inl e) \<Rightarrow> (calls, [])))"

text \<open>
  \<open>manualSearch\<close>: the new state, the URLs fetched, and the outcome of its promise. The
  error for invalid input is a plain object, thrown inside the \<open>try\<close> block, so the
  \<open>catch\<close> block sets it again and rethrows it. The \<open>catch\<close> block stores and
  rethrows whatever it caught: \<open>error as GeocodingError\<close> is erased when compiled.
\<close>

definition manualSearch ::
  "options \<Rightarrow> 'n host \<Rightarrow> jsstring option \<Rightarrow> controller \<Rightarrow>
   controller \<times> jsstring list \<times> (thrown + 'n GeocodingResult list)" where
  "manualSearch opts h query w =
     (let w1 = w\<lparr>searchError := None\<rparr>;
          validation = validateLocationInput query
      in if \<not> isValid validation then
           let err = \<lparr>message = (case error validation of
                                     None \<Rightarrow> asc ''Invalid input''
                                   | Some m \<Rightarrow> if m = [] then asc ''Invalid input'' else m),
                      code = INVALID_INPUT\<rparr>;
               w2 = w1\<lparr>searchError := Some (ErrorObject err)\<rparr>
           in (w2\<lparr>searchError := Some (ErrorObject err)\<rparr>, [], Inl (ErrorObject err))
         else
           (case geocodeLocation h query of
              (calls, Inr results) \<Rightarrow> (w1, calls, Inr (slice0 results (maxResults opts)))
            | (calls, Inl e) \<Rightarrow> (w1\<lparr>searchError := Some e\<rparr>, calls, Inl e)))"

text \<open>What can happen to a controller: a keystroke, a clear, or time passing.\<close>

datatype event = SetSearchQuery jsstring | ClearResults | Elapse nat

fun step :: "options \<Rightarrow> event \<Rightarrow> controller \<Rightarrow> controller" where
  "step opts (SetSearchQuery q) w = handleSetSearchQuery opts q w"
| "step opts ClearResults w = clearResults w"
| "step opts (Elapse d) w = elapse d w"

fun run :: "options \<Rightarrow> event list \<Rightarrow> controller \<Rightarrow> controller" where
  "run opts [] w = w"
| "run opts (e # es) w = run opts es (step opts e w)"

text \<open>
  A burst: each update is given with the time that passed since the one before it.
\<close>

fun burst :: "(nat \<times> jsstring) list \<Rightarrow> event list" where
  "burst [] = []"
| "burst ((gap, q) # us) = Elapse gap # SetSearchQuery q # burst us"

section \<open>The query observer (useQuery)\<close>

text \<open>
  \<open>useQuery\<close> belongs to the library \<open>@tanstack/react-query\<close>; the hook gives it a
  query key made of the debounced query, the \<open>queryFn\<close> above, the flag \<open>enabled\<close> and
  a \<open>staleTime\<close> of five minutes. Its observer is modelled from the library: on a render
  whose key differs from the key of the render before, the observer turns to the query of
  the new key and, when that query is enabled, runs \<open>queryFn\<close> for it, unless a fetch
  for that key is still in flight or its data are younger than \<open>staleTime\<close>. A render
  with the same key starts nothing. The other occasions on which the library fetches (the
  window regains focus, the network reconnects, the component is mounted again) and its
  disposal of queries that nobody observes are not events of this model.
\<close>

definition staleTime :: nat where
  "staleTime = 1000 * 60 * 5"

text \<open>
  The state of the observer and of the query cache behind it: the key of the last render,
  for each key the time at which the data of its last fetch arrive and those data, the
  trace of the keys \<open>queryFn\<close> ran for, and the trace of the URLs these runs fetched.
\<close>

record 'n query_client =
  queryKey :: jsstring
  cache :: "jsstring \<Rightarrow> (nat \<times> 'n GeocodingResult list) option"
  lookups :: "jsstring list"
  requests :: "jsstring list"

definition lookup_due :: "(nat \<times> 'r) option \<Rightarrow> nat \<Rightarrow> bool" where
  "lookup_due entry t =
     (case entry of None \<Rightarrow> True | Some (arrives, results) \<Rightarrow> arrives + staleTime \<le> t)"

text \<open>
  The observer turns to a key at time \<open>t\<close>. The fetch it starts takes the time the
  network needs for it, \<open>latency key t\<close>.
\<close>

definition subscribe ::
  "options \<Rightarrow> 'n host \<Rightarrow> (jsstring \<Rightarrow> nat \<Rightarrow> nat) \<Rightarrow> nat \<Rightarrow> jsstring \<Rightarrow>
   'n query_client \<Rightarrow> 'n query_client" where
  "subscribe opts h latency t key c =
     (if minSearchLength opts \<le> int (length key) \<and> lookup_due (cache c key) t then
        c\<lparr>queryKey := key,
          cache := (cache c)(key \<mapsto> (t + latency key t, snd (queryFn opts h key))),
          lookups := lookups c @ [key],
          requests := requests c @ fst (queryFn opts h key)\<rparr>
      else c\<lparr>queryKey := key\<rparr>)"

text \<open>The render that follows a change of the controller's state.\<close>

definition render ::
  "options \<Rightarrow> 'n host \<Rightarrow> (jsstring \<Rightarrow> nat \<Rightarrow> nat) \<Rightarrow> controller \<Rightarrow>
   'n query_client \<Rightarrow> 'n query_client" where
  "render opts h latency w c =
     (if debouncedQuery w = queryKey c then c
      else subscribe opts h latency (now w) (debouncedQuery w) c)"

definition fire_render ::
  "options \<Rightarrow> 'n host \<Rightarrow> (jsstring \<Rightarrow> nat \<Rightarrow> nat) \<Rightarrow> timer \<Rightarrow>
   controller \<times> 'n query_client \<Rightarrow> controller \<times> 'n query_client" where
  "fire_render opts h latency t s =
     (let w = fire t (fst s) in (w, render opts h latency w (snd s)))"

text \<open>
  The events of the controller again, now with the observer: every change of state is
  followed by a render, also between two timer callbacks.
\<close>

fun observed_step ::
  "options \<Rightarrow> 'n host \<Rightarrow> (jsstring \<Rightarrow> nat \<Rightarrow> nat) \<Rightarrow> event \<Rightarrow>
   controller \<times> 'n query_client \<Rightarrow> controller \<times> 'n query_client" where
  "observed_step opts h latency (SetSearchQuery q) (w, c) =
     (let w' = handleSetSearchQuery opts q w in (w', render opts h latency w' c))"
| "observed_step opts h latency ClearResults (w, c) =
     (let w' = clearResults w in (w', render opts h latency w' c))"
| "observed_step opts h latency (Elapse d) (w, c) =
     (let target = now w + d;
          due = sort_key deadline (filter (\<lambda>t. deadline t \<le> target) (timers w));
          s = foldl (\<lambda>s t. fire_render opts h latency t s) (w, c) due
      in ((fst s)\<lparr>now := target\<rparr>, snd s))"

fun observed_run ::
  "options \<Rightarrow> 'n host \<Rightarrow> (jsstring \<Rightarrow> nat \<Rightarrow> nat) \<Rightarrow> event list \<Rightarrow>
   controller \<times> 'n query_client \<Rightarrow> controller \<times> 'n query_client" where
  "observed_run opts h latency [] s = s"
| "observed_run opts h latency (e # es) s =
     observed_run opts h latency es (observed_step opts h latency e s)"

text \<open>The observer of a controller that was just mounted, with an empty cache.\<close>

definition initial_client :: "'n query_client" where
  "initial_client = \<lparr>queryKey = [], cache = (\<lambda>key. None), lookups = [], requests = []\<rparr>"

section \<open>Invariants of the timer discipline\<close>

text \<open>
  The only pending timer, if any, is the one whose handle \<open>debounceRef\<close> holds.
\<close>

definition own_timer_only :: "controller \<Rightarrow> bool" where
  "own_timer_only w =
     (case timers w of [] \<Rightarrow> True | [t] \<Rightarrow> debounceRef w = Some (handle t) | _ \<Rightarrow> False)"

text \<open>
  Just after an update with a query that is long enough: one timer, set now, capturing it.
\<close>

definition awaiting :: "options \<Rightarrow> jsstring \<Rightarrow> controller \<Rightarrow> bool" where
  "awaiting opts q w =
     (case timers w of
        [t] \<Rightarrow> debounceRef w = Some (handle t) \<and>
               deadline t = now w + timer_delay (debounceMs opts) \<and> captured t = q
      | _ \<Rightarrow> False)"

section \<open>Example data\<close>

definition paris :: "real Location" where
  "paris =
     \<lparr>loc_id = asc ''48.85-2.35'', loc_name = asc ''Paris'', loc_region = asc ''Ile-de-France'',
      loc_country = asc ''France'', loc_lat = 48.85, loc_lon = 2.35\<rparr>"

definition oslo :: "real Location" where
  "oslo =
     \<lparr>loc_id = asc ''59.91-10.75'', loc_name = asc ''Oslo'', loc_region = asc ''Oslo'',
      loc_country = asc ''Norway'', loc_lat = 59.91, loc_lon = 10.75\<rparr>"

text \<open>
  An example host: its numbers are given by their decimal text, its encoder is the
  identity (right on the unreserved characters the examples use), and its network gives
  one fixed outcome to every request.
\<close>

definition host_of :: "jsstring fetch_outcome \<Rightarrow> jsstring host" where
  "host_of outcome =
     \<lparr>fetch = (\<lambda>url. outcome), encodeURIComponent = Some, NumberToString = (\<lambda>n. n),
      NumberToBoolean = (\<lambda>n. n \<noteq> asc ''0'' \<and> n \<noteq> asc ''NaN''), parseFloat = (\<lambda>s. s)\<rparr>"

definition paris_record :: "jsstring upstream" where
  "paris_record =
     \<lparr>up_name = JStr (asc ''Paris''), up_region = JStr (asc ''Ile-de-France''),
      up_country = JStr (asc ''France''), up_lat = JNum (asc ''48.87''), up_lon = JNum (asc ''2.33'')\<rparr>"

definition oslo_record :: "jsstring upstream" where
  "oslo_record =
     \<lparr>up_name = JStr (asc ''Oslo''), up_region = JStr [],
      up_country = JStr (asc ''Norway''), up_lat = JStr (asc ''59.91''), up_lon = JStr (asc ''10.75'')\<rparr>"

definition found :: "jsstring fetch_outcome" where
  "found = Responds \<lparr>status = 200, body = JsonArray [Some paris_record, Some oslo_record]\<rparr>"

definition answers :: "nat \<Rightarrow> jsstring fetch_outcome" where
  "answers st = Responds \<lparr>status = st, body = InvalidJson\<rparr>"

text \<open>An example network on which every fetch takes 120.\<close>

definition slow :: "jsstring \<Rightarrow> nat \<Rightarrow> nat" where
  "slow key t = 120"

section \<open>Saved-location toggle\<close>

lemma filter_unsaved:
  "\<not> list_ex (\<lambda>saved. loc_id saved = k) xs \<Longrightarrow> filter (\<lambda>saved. loc_id saved \<noteq> k) xs = xs"
  by (induction xs) auto

lemma filter_no_longer_saved:
  "\<not> list_ex (\<lambda>saved. loc_id saved = k) (filter (\<lambda>saved. loc_id saved \<noteq> k) xs)"
  by (induction xs) auto

text \<open>
  C2, as the code has it: two toggles of a place that is not saved give the list back as it
  was; two toggles of a place that is saved remove every entry with its identifier and
  append the place at the end.
\<close>

theorem toggle_twice:
  "(\<not> isLocationSaved savedLocations location \<longrightarrow>
      toggleSavedLocation (toggleSavedLocation savedLocations location) location = savedLocations) \<and>
   (isLocationSaved savedLocations location \<longrightarrow>
      toggleSavedLocation (toggleSavedLocation savedLocations location) location =
        filter (\<lambda>saved. loc_id saved \<noteq> loc_id location) savedLocations @ [location])"
  by (simp add: isLocationSaved_def toggleSavedLocation_def filter_unsaved filter_no_longer_saved)

theorem toggle_twice_witness:
  "\<not> isLocationSaved [oslo] paris \<and>
   toggleSavedLocation (toggleSavedLocation [oslo] paris) paris = [oslo] \<and>
   isLocationSaved [paris, oslo] paris \<and>
   toggleSavedLocation (toggleSavedLocation [paris, oslo] paris) paris = [oslo, paris]"
  using toggle_twice [of "[oslo]" paris] toggle_twice [of "[paris, oslo]" paris]
  by (simp add: isLocationSaved_def paris_def oslo_def asc_def)

text \<open>
  C2 as stated fails for a saved place that is not the last entry: with Paris and Oslo
  saved in this order, two toggles of Paris leave Oslo first.
\<close>

theorem toggle_twice_counterexample:
  "toggleSavedLocation (toggleSavedLocation [paris, oslo] paris) paris \<noteq> [paris, oslo]"
  by (simp add: toggleSavedLocation_def paris_def oslo_def asc_def)

section \<open>Geocoding service: search and suggest\<close>

lemma trim_Nil [simp]: "trim [] = []"
  by (simp add: trim_def)

lemma paris_valid_length: "\<not> length (trim (asc ''Paris'')) < 2"
  by (simp add: trim_def asc_def isWhiteSpace_def)

lemma paris_trimmed: "trim (asc ''Paris'') = asc ''Paris''"
  by (simp add: trim_def asc_def isWhiteSpace_def)

lemma catch_block_raises [simp]: "catch_block e = ReferenceError"
  by (simp add: catch_block_def instanceof_GeocodingError_def)


lemma search_rejected:
  "geocodeLocation (host_of Rejects) (Some (asc ''Paris'')) =
     ([search_url (asc ''Paris'')], Inl ReferenceError)"
  by (simp add: geocodeLocation_def try_block_def host_of_def paris_trimmed)
     (simp add: asc_def)

lemma search_answered:
  "geocodeLocation (host_of (answers st)) (Some (asc ''Paris'')) =
     ([search_url (asc ''Paris'')], Inl ReferenceError)"
proof -
  have "snd (try_block (host_of (answers st)) (asc ''Paris'')) = Inl ReferenceError \<or>
        snd (try_block (host_of (answers st)) (asc ''Paris'')) = Inl SyntaxError"
    by (simp add: try_block_def host_of_def answers_def new_GeocodingError_def)
  moreover have "fst (try_block (host_of (answers st)) (asc ''Paris'')) = [search_url (asc ''Paris'')]"
    by (simp add: try_block_def host_of_def answers_def)
  moreover have "asc ''Paris'' \<noteq> []"
    by (simp add: asc_def)
  ultimately show ?thesis
    using paris_valid_length
    by (auto simp add: geocodeLocation_def paris_trimmed split: prod.splits sum.splits)
qed

lemma search_found:
  "geocodeLocation (host_of found) (Some (asc ''Paris'')) =
     ([search_url (asc ''Paris'')],
      Inr [toResult (host_of found) paris_record, toResult (host_of found) oslo_record])"
  by (simp add: geocodeLocation_def try_block_def host_of_def paris_trimmed found_def
        response_ok_def)
     (simp add: asc_def)

text \<open>
  C9 fails on the code where it says that the failure is \<open>INVALID_INPUT\<close>. On the empty
  string, and on a text that is a single letter between spaces, \<open>geocodeLocation\<close>
  fetches nothing and rejects with a ReferenceError, which has no code: the \<open>throw\<close>
  of line 27 never builds its error object.
\<close>

theorem short_search_raises_ReferenceError:
  "geocodeLocation (host_of found) (Some []) = ([], Inl ReferenceError) \<and>
   geocodeLocation (host_of found) (Some (asc '' a  '')) = ([], Inl ReferenceError) \<and>
   thrown_code ReferenceError = None"
  by (simp add: geocodeLocation_def new_GeocodingError_def trim_def asc_def isWhiteSpace_def)

text \<open>In general a text whose trimmed length is below 2 is rejected so, with no fetch.\<close>

lemma search_short_input:
  "length (trim s) < 2 \<Longrightarrow> geocodeLocation h (Some s) = ([], Inl ReferenceError)"
  by (simp add: geocodeLocation_def new_GeocodingError_def)

text \<open>
  C3 fails on the code. For the text \<open>Paris\<close>, a rejected \<open>fetch\<close> and the answers
  with status 401, 429 and 500 all end in a ReferenceError, which has no code: the
  \<open>throw\<close> statements of the \<open>try\<close> block never build their error objects, and
  the \<open>catch\<close> block raises at its \<open>instanceof\<close> test.
\<close>

theorem transport_failures_raise_ReferenceError:
  "geocodeLocation (host_of Rejects) (Some (asc ''Paris'')) =
     ([search_url (asc ''Paris'')], Inl ReferenceError) \<and>
   geocodeLocation (host_of (answers 401)) (Some (asc ''Paris'')) =
     ([search_url (asc ''Paris'')], Inl ReferenceError) \<and>
   geocodeLocation (host_of (answers 429)) (Some (asc ''Paris'')) =
     ([search_url (asc ''Paris'')], Inl ReferenceError) \<and>
   geocodeLocation (host_of (answers 500)) (Some (asc ''Paris'')) =
     ([search_url (asc ''Paris'')], Inl ReferenceError) \<and>
   thrown_code ReferenceError = None"
  by (simp add: search_rejected search_answered)

text \<open>
  C4: \<open>getSuggestions\<close> gives the empty list and fetches nothing when the text is
  shorter than 3; otherwise it fetches what \<open>geocodeLocation\<close> fetches, gives the empty
  list when \<open>geocodeLocation\<close> fails and its list when it succeeds; in every case it
  resolves to a list.
\<close>

theorem suggest_never_fails:
  "(length partialInput < 3 \<longrightarrow> getSuggestions h partialInput = ([], Inr [])) \<and>
   (\<not> length partialInput < 3 \<longrightarrow>
      fst (getSuggestions h partialInput) = fst (geocodeLocation h (Some partialInput)) \<and>
      (\<forall>e. snd (geocodeLocation h (Some partialInput)) = Inl e \<longrightarrow>
           snd (getSuggestions h partialInput) = Inr []) \<and>
      (\<forall>rs. snd (geocodeLocation h (Some partialInput)) = Inr rs \<longrightarrow>
           snd (getSuggestions h partialInput) = Inr rs)) \<and>
   (\<exists>rs. snd (getSuggestions h partialInput) = Inr rs)"
  by (auto simp add: getSuggestions_def split: prod.splits sum.splits)

theorem suggest_never_fails_witness:
  "length (asc ''Pa'') < 3 \<and> getSuggestions (host_of Rejects) (asc ''Pa'') = ([], Inr []) \<and>
   \<not> length (asc ''Paris'') < 3 \<and>
   snd (geocodeLocation (host_of Rejects) (Some (asc ''Paris''))) = Inl ReferenceError \<and>
   snd (getSuggestions (host_of Rejects) (asc ''Paris'')) = Inr [] \<and>
   snd (geocodeLocation (host_of found) (Some (asc ''Paris''))) =
     Inr [toResult (host_of found) paris_record, toResult (host_of found) oslo_record] \<and>
   snd (getSuggestions (host_of found) (asc ''Paris'')) =
     Inr [toResult (host_of found) paris_record, toResult (host_of found) oslo_record]"
  using suggest_never_fails [of "asc ''Pa''" "host_of Rejects"]
        suggest_never_fails [of "asc ''Paris''" "host_of Rejects"]
        suggest_never_fails [of "asc ''Paris''" "host_of found"]
        search_rejected search_found
  by (simp add: asc_def)

lemma map_results_map_Some:
  "map_results h (map Some ups) = Some (map (toResult h) ups)"
  by (induction ups) auto

lemma map_results_SomeD:
  "map_results h xs = Some ys \<Longrightarrow> \<exists>ups. xs = map Some ups \<and> ys = map (toResult h) ups"
proof (induction xs arbitrary: ys)
  case Nil
  then show ?case by simp
next
  case (Cons x xs)
  from Cons.prems obtain u zs where u: "x = Some u" "map_results h xs = Some zs"
      "ys = toResult h u # zs"
    by (cases x) (auto split: option.splits)
  from Cons.IH [OF u(2)] obtain ups where ups: "xs = map Some ups" "zs = map (toResult h) ups"
    by blast
  show ?case
    by (rule exI [of _ "u # ups"]) (simp add: u ups)
qed

lemma search_success_iff:
  "snd (geocodeLocation h input) = Inr rs \<longleftrightarrow>
     (\<exists>s q r ups. input = Some s \<and> \<not> length (trim s) < 2 \<and>
        encodeURIComponent h (trim s) = Some q \<and> fetch h (search_url q) = Responds r \<and>
        response_ok r \<and> body r = JsonArray (map Some ups) \<and> ups \<noteq> [] \<and>
        rs = map (toResult h) ups)"
proof
  assume a: "snd (geocodeLocation h input) = Inr rs"
  then obtain s where s: "input = Some s" "\<not> length (trim s) < 2"
    by (auto simp add: geocodeLocation_def split: option.splits if_splits)
  with a have t: "snd (try_block h (trim s)) = Inr rs"
    by (auto simp add: geocodeLocation_def Let_def split: if_splits prod.splits sum.splits)
  then obtain q where q: "encodeURIComponent h (trim s) = Some q"
    by (auto simp add: try_block_def split: option.splits)
  with t obtain r where r: "fetch h (search_url q) = Responds r" "response_ok r"
    by (auto simp add: try_block_def split: if_splits fetch_outcome.splits)
  with t q obtain xs where xs: "body r = JsonArray xs" "xs \<noteq> []" "map_results h xs = Some rs"
    by (auto simp add: try_block_def split: if_splits json_body.splits option.splits)
  from xs(3) obtain ups where ups: "xs = map Some ups" "rs = map (toResult h) ups"
    using map_results_SomeD by blast
  with xs(2) have "ups \<noteq> []" by auto
  with s q r xs ups show "\<exists>s q r ups. input = Some s \<and> \<not> length (trim s) < 2 \<and>
        encodeURIComponent h (trim s) = Some q \<and> fetch h (search_url q) = Responds r \<and>
        response_ok r \<and> body r = JsonArray (map Some ups) \<and> ups \<noteq> [] \<and>
        rs = map (toResult h) ups"
    by blast
next
  assume "\<exists>s q r ups. input = Some s \<and> \<not> length (trim s) < 2 \<and>
        encodeURIComponent h (trim s) = Some q \<and> fetch h (search_url q) = Responds r \<and>
        response_ok r \<and> body r = JsonArray (map Some ups) \<and> ups \<noteq> [] \<and>
        rs = map (toResult h) ups"
  then obtain s q r ups where h: "input = Some s" "\<not> length (trim s) < 2"
        "encodeURIComponent h (trim s) = Some q" "fetch h (search_url q) = Responds r"
        "response_ok r" "body r = JsonArray (map Some ups)" "ups \<noteq> []"
        "rs = map (toResult h) ups"
    by blast
  have m: "map_results h (map Some ups) = Some (map (toResult h) ups)"
    by (rule map_results_map_Some)
  from h(2) have "s \<noteq> []" by auto
  with h m show "snd (geocodeLocation h input) = Inr rs"
    by (simp add: geocodeLocation_def try_block_def Let_def)
qed

text \<open>
  C6: \<open>geocodeLocation\<close> succeeds exactly on an ok response whose body is a non-empty
  array of records, and then its result is the list of their images under \<open>toResult\<close>;
  the identifier of such an image is the text of the raw \<open>lat\<close>, a hyphen and the text
  of the raw \<open>lon\<close>, and its formatted address is the name, a comma and a space, the
  region with a comma and a space when the region is truthy, and the country.
\<close>

theorem search_maps_records:
  "(snd (geocodeLocation h input) = Inr rs \<longleftrightarrow>
     (\<exists>s q r ups. input = Some s \<and> \<not> length (trim s) < 2 \<and>
        encodeURIComponent h (trim s) = Some q \<and> fetch h (search_url q) = Responds r \<and>
        response_ok r \<and> body r = JsonArray (map Some ups) \<and> ups \<noteq> [] \<and>
        rs = map (toResult h) ups)) \<and>
   id' (toResult h u) = ToString h (up_lat u) @ asc ''-'' @ ToString h (up_lon u) \<and>
   formatted_address (toResult h u) =
     ToString h (up_name u) @ asc '', '' @
     (if ToBoolean h (up_region u) then ToString h (up_region u) @ asc '', '' else []) @
     ToString h (up_country u)"
  using search_success_iff [of h input rs] by (simp add: toResult_def)

theorem search_maps_records_witness:
  "snd (geocodeLocation (host_of found) (Some (asc ''Paris''))) =
     Inr [toResult (host_of found) paris_record, toResult (host_of found) oslo_record] \<and>
   id' (toResult (host_of found) paris_record) = asc ''48.87-2.33'' \<and>
   formatted_address (toResult (host_of found) paris_record) = asc ''Paris, Ile-de-France, France'' \<and>
   id' (toResult (host_of found) oslo_record) = asc ''59.91-10.75'' \<and>
   formatted_address (toResult (host_of found) oslo_record) = asc ''Oslo, Norway''"
proof -
  have ex: "\<exists>s q r ups. Some (asc ''Paris'') = Some s \<and> \<not> length (trim s) < 2 \<and>
        encodeURIComponent (host_of found) (trim s) = Some q \<and>
        fetch (host_of found) (search_url q) = Responds r \<and>
        response_ok r \<and> body r = JsonArray (map Some ups) \<and> ups \<noteq> [] \<and>
        [toResult (host_of found) paris_record, toResult (host_of found) oslo_record] =
          map (toResult (host_of found)) ups"
    apply (rule exI [of _ "asc ''Paris''"])
    apply (rule exI [of _ "asc ''Paris''"])
    apply (rule exI [of _ "\<lparr>status = 200, body = JsonArray [Some paris_record, Some oslo_record]\<rparr>"])
    apply (rule exI [of _ "[paris_record, oslo_record]"])
    apply (simp add: paris_trimmed host_of_def found_def response_ok_def)
    apply (simp add: asc_def)
    done
  from search_maps_records [of "host_of found" "Some (asc ''Paris'')"
         "[toResult (host_of found) paris_record, toResult (host_of found) oslo_record]" paris_record]
       search_maps_records [of "host_of found" "Some (asc ''Paris'')"
         "[toResult (host_of found) paris_record, toResult (host_of found) oslo_record]" oslo_record]
       ex
  show ?thesis
    by (simp add: host_of_def paris_record_def oslo_record_def asc_def)
qed

section \<open>Validation before search\<close>

lemma paris_valid: "isValid (validateLocationInput (Some (asc ''Paris'')))"
  by (simp add: validateLocationInput_def paris_trimmed)
     (simp add: asc_def dangerousPatterns_def lit_def ci_def canonicalize_def isWordChar_def
        isWhiteSpace_def)



section \<open>The validator\<close>

text \<open>
  A match starts and ends with a code unit that is not white space, so a pattern matches
  the trimmed text exactly when it matches the text.
\<close>

lemma match_here_empty:
  "\<exists>a\<in>set re. snd a \<noteq> Star \<Longrightarrow> \<not> match_here re []"
proof (induction re)
  case Nil
  then show ?case by simp
next
  case (Cons a re)
  obtain c q where a: "a = (c, q)" by (cases a)
  show ?case
  proof (cases q)
    case Star
    with a Cons show ?thesis by auto
  qed (simp_all add: a)
qed

lemma match_here_empty_last:
  assumes "r \<noteq> []" "snd (last r) = One"
  shows "\<not> match_here r []"
proof -
  from assms have "last r \<in> set r" "snd (last r) \<noteq> Star" by simp_all
  then have "\<exists>a\<in>set r. snd a \<noteq> Star" by blast
  then show ?thesis by (rule match_here_empty)
qed

lemma match_here_snoc:
  "re \<noteq> [] \<Longrightarrow> snd (last re) = One \<Longrightarrow> \<not> fst (last re) w \<Longrightarrow>
   match_here re (xs @ [w]) = match_here re xs"
proof (induction re xs rule: match_here.induct)
  case (1 s)
  then show ?case by simp
next
  case (2 c r)
  then show ?case by (cases "r = []") (auto simp: match_here_empty_last)
next
  case (3 c r x xs)
  then show ?case by (cases "r = []") auto
next
  case (4 c r)
  then have "r \<noteq> []" by auto
  with 4 show ?case by (simp add: match_here_empty_last)
next
  case (5 c r x xs)
  then have "r \<noteq> []" by auto
  with 5 show ?case by simp
next
  case (6 c r)
  then have r: "r \<noteq> []" by auto
  with 6 have "\<not> match_here r []" by (simp add: match_here_empty_last)
  moreover from 6 r have "match_here r ([] @ [w]) = match_here r []" by simp
  ultimately show ?case by simp
next
  case (7 c r x xs)
  then have "r \<noteq> []" by auto
  with 7 show ?case by simp
qed

lemma regex_test_snoc:
  "re \<noteq> [] \<Longrightarrow> snd (last re) = One \<Longrightarrow> \<not> fst (last re) w \<Longrightarrow>
   regex_test re (xs @ [w]) = regex_test re xs"
proof (induction xs)
  case Nil
  from match_here_snoc [OF Nil, of "[]"] Nil show ?case
    by (simp add: match_here_empty_last)
next
  case (Cons x xs)
  from match_here_snoc [OF Cons.prems, of "x # xs"] Cons show ?case by simp
qed

lemma regex_test_Cons:
  "\<not> c w \<Longrightarrow> regex_test ((c, One) # r) (w # xs) = regex_test ((c, One) # r) xs"
  by simp

lemma regex_test_dropWhile:
  "(\<And>w. P w \<Longrightarrow> \<not> c w) \<Longrightarrow>
   regex_test ((c, One) # r) (dropWhile P s) = regex_test ((c, One) # r) s"
  by (induction s) auto

lemma regex_test_dropWhile_end:
  assumes "re \<noteq> []" "snd (last re) = One" "\<And>w. P w \<Longrightarrow> \<not> fst (last re) w"
  shows "regex_test re (rev (dropWhile P (rev s))) = regex_test re s"
proof (induction s rule: rev_induct)
  case Nil
  show ?case by simp
next
  case (snoc w s)
  show ?case
  proof (cases "P w")
    case True
    with assms have "regex_test re (s @ [w]) = regex_test re s"
      by (simp add: regex_test_snoc)
    with True snoc show ?thesis by simp
  next
    case False
    then show ?thesis by simp
  qed
qed

lemma regex_test_trim:
  assumes "snd (last ((c, One) # r)) = One"
      and "\<And>w. isWhiteSpace w \<Longrightarrow> \<not> c w"
      and "\<And>w. isWhiteSpace w \<Longrightarrow> \<not> fst (last ((c, One) # r)) w"
  shows "regex_test ((c, One) # r) (trim s) = regex_test ((c, One) # r) s"
proof -
  have "regex_test ((c, One) # r) (trim s) = regex_test ((c, One) # r) (dropWhile isWhiteSpace s)"
    unfolding trim_def using assms(1,3) by (intro regex_test_dropWhile_end) simp_all
  also have "\<dots> = regex_test ((c, One) # r) s"
    using assms(2) by (rule regex_test_dropWhile)
  finally show ?thesis .
qed

lemma ci_not_WhiteSpace:
  "isWhiteSpace w \<Longrightarrow> \<not> ci CHR ''<'' w"
  "isWhiteSpace w \<Longrightarrow> \<not> ci CHR ''j'' w"
  "isWhiteSpace w \<Longrightarrow> \<not> ci CHR ''o'' w"
  "isWhiteSpace w \<Longrightarrow> \<not> ci CHR ''d'' w"
  "isWhiteSpace w \<Longrightarrow> \<not> ci CHR ''t'' w"
  "isWhiteSpace w \<Longrightarrow> \<not> ci CHR '':'' w"
  "isWhiteSpace w \<Longrightarrow> \<not> ci CHR ''='' w"
  by (auto simp add: isWhiteSpace_def ci_def canonicalize_def)

lemma dangerous_trim:
  "list_ex (\<lambda>pattern. regex_test pattern (trim s)) dangerousPatterns =
   list_ex (\<lambda>pattern. regex_test pattern s) dangerousPatterns"
  by (simp add: dangerousPatterns_def lit_def regex_test_trim ci_not_WhiteSpace)

text \<open>
  C7, as the code has it: \<open>validateLocationInput\<close> returns invalid exactly when the
  text is absent, or its trimmed length is below 2, or its trimmed length is above 100, or
  it matches one of the four dangerous patterns; otherwise it returns valid. Both bounds
  are taken on the trimmed text.
\<close>

theorem validate_invalid_iff:
  "\<not> isValid (validateLocationInput input) \<longleftrightarrow>
     (input = None \<or>
      (\<exists>s. input = Some s \<and>
         (length (trim s) < 2 \<or> length (trim s) > 100 \<or>
          list_ex (\<lambda>pattern. regex_test pattern s) dangerousPatterns)))"
proof (cases input)
  case None
  then show ?thesis by (simp add: validateLocationInput_def)
next
  case (Some s)
  then show ?thesis
    by (cases "s = []") (simp_all add: validateLocationInput_def Let_def dangerous_trim)
qed

lemma trim_letters: "trim (replicate n 97) = replicate n 97"
  by (simp add: trim_def isWhiteSpace_def)

lemma trim_padded: "trim (asc ''ab'' @ replicate n 32) = asc ''ab''"
proof -
  have ws: "isWhiteSpace 32" "\<not> isWhiteSpace 97" "\<not> isWhiteSpace 98"
    by (simp_all add: isWhiteSpace_def)
  have "dropWhile isWhiteSpace (replicate n 32 @ [98, 97]) = dropWhile isWhiteSpace [98, 97]"
    by (rule dropWhile_append2) (simp add: ws)
  with ws show ?thesis
    by (simp add: trim_def asc_def)
qed

lemma short_a: "length (trim (asc ''a'')) < 2"
  by (simp add: trim_def asc_def isWhiteSpace_def)

lemma dangerous_script:
  "list_ex (\<lambda>pattern. regex_test pattern (asc ''<script>'')) dangerousPatterns"
  by (simp add: dangerousPatterns_def lit_def asc_def ci_def canonicalize_def)

lemma dangerous_handler:
  "list_ex (\<lambda>pattern. regex_test pattern (asc ''x ONLoad ='')) dangerousPatterns"
  by (simp add: dangerousPatterns_def lit_def asc_def ci_def canonicalize_def isWordChar_def
        isWhiteSpace_def)

lemma harmless_paris:
  "\<not> list_ex (\<lambda>pattern. regex_test pattern (asc ''Paris'')) dangerousPatterns"
  by (simp add: dangerousPatterns_def lit_def asc_def ci_def canonicalize_def)

lemma harmless_ab:
  "\<not> list_ex (\<lambda>pattern. regex_test pattern (asc ''ab'')) dangerousPatterns"
  by (simp add: dangerousPatterns_def lit_def asc_def ci_def canonicalize_def)

theorem validate_invalid_iff_witness:
  "\<not> isValid (validateLocationInput None) \<and>
   length (trim (asc ''a'')) < 2 \<and> \<not> isValid (validateLocationInput (Some (asc ''a''))) \<and>
   length (trim (replicate 101 97)) > 100 \<and> \<not> isValid (validateLocationInput (Some (replicate 101 97))) \<and>
   list_ex (\<lambda>pattern. regex_test pattern (asc ''<script>'')) dangerousPatterns \<and>
   \<not> isValid (validateLocationInput (Some (asc ''<script>''))) \<and>
   list_ex (\<lambda>pattern. regex_test pattern (asc ''x ONLoad ='')) dangerousPatterns \<and>
   \<not> isValid (validateLocationInput (Some (asc ''x ONLoad =''))) \<and>
   \<not> length (trim (asc ''Paris'')) < 2 \<and> \<not> length (trim (asc ''Paris'')) > 100 \<and>
   \<not> list_ex (\<lambda>pattern. regex_test pattern (asc ''Paris'')) dangerousPatterns \<and>
   isValid (validateLocationInput (Some (asc ''Paris'')))"
proof -
  have long: "length (trim (replicate 101 97)) > 100"
    by (simp add: trim_letters)
  have paris: "length (trim (asc ''Paris'')) = 5"
    by (simp add: trim_def asc_def isWhiteSpace_def)
  from validate_invalid_iff [of None]
       validate_invalid_iff [of "Some (asc ''a'')"]
       validate_invalid_iff [of "Some (replicate 101 97)"]
       validate_invalid_iff [of "Some (asc ''<script>'')"]
       validate_invalid_iff [of "Some (asc ''x ONLoad ='')"]
       validate_invalid_iff [of "Some (asc ''Paris'')"]
       short_a long dangerous_script dangerous_handler harmless_paris paris
  show ?thesis by simp
qed

text \<open>
  C7 as stated fails on a text whose length is above 100 and whose trimmed length is
  not: the letters \<open>ab\<close> followed by 99 spaces have length 101 and are valid.
\<close>

theorem validate_length_counterexample:
  "length (asc ''ab'' @ replicate 99 32) > 100 \<and>
   isValid (validateLocationInput (Some (asc ''ab'' @ replicate 99 32)))"
proof -
  have "asc ''ab'' @ replicate 99 32 \<noteq> []" "length (asc ''ab'') = 2"
    by (simp_all add: asc_def)
  then show ?thesis
    by (simp add: validateLocationInput_def trim_padded harmless_ab)
qed

section \<open>Manual search\<close>

lemma validation_error_message:
  "\<not> isValid (validateLocationInput query) \<Longrightarrow>
   \<exists>m. error (validateLocationInput query) = Some m \<and> m \<noteq> []"
  by (auto simp add: validateLocationInput_def Let_def asc_def split: option.splits if_splits)

text \<open>
  C8: \<open>manualSearch\<close> validates first. On invalid input it fetches nothing, records an
  error object with code \<open>INVALID_INPUT\<close> and the validator's message, and rejects with it. On
  valid input it fetches what \<open>geocodeLocation\<close> fetches; on success it resolves to the
  results cut by \<open>slice(0, maxResults)\<close> (the first \<open>maxResults\<close> of them for a maximum
  that is not negative) with the error slot cleared, on failure it records the error and
  rejects with it.
\<close>

theorem manualSearch_paths:
  "(\<not> isValid (validateLocationInput query) \<longrightarrow>
      (\<exists>e. manualSearch opts h query w =
             (w\<lparr>searchError := Some (ErrorObject e)\<rparr>, [], Inl (ErrorObject e)) \<and>
           code e = INVALID_INPUT \<and> error (validateLocationInput query) = Some (message e))) \<and>
   (isValid (validateLocationInput query) \<longrightarrow>
      (\<forall>calls rs. geocodeLocation h query = (calls, Inr rs) \<longrightarrow>
         manualSearch opts h query w =
           (w\<lparr>searchError := None\<rparr>, calls, Inr (slice0 rs (maxResults opts))) \<and>
         (0 \<le> maxResults opts \<longrightarrow> slice0 rs (maxResults opts) = take (nat (maxResults opts)) rs)) \<and>
      (\<forall>calls e. geocodeLocation h query = (calls, Inl e) \<longrightarrow>
         manualSearch opts h query w = (w\<lparr>searchError := Some e\<rparr>, calls, Inl e)))"
proof (intro conjI impI allI)
  assume inv: "\<not> isValid (validateLocationInput query)"
  then obtain m where m: "error (validateLocationInput query) = Some m" "m \<noteq> []"
    using validation_error_message by blast
  show "\<exists>e. manualSearch opts h query w =
             (w\<lparr>searchError := Some (ErrorObject e)\<rparr>, [], Inl (ErrorObject e)) \<and>
           code e = INVALID_INPUT \<and> error (validateLocationInput query) = Some (message e)"
    by (rule exI [of _ "\<lparr>message = m, code = INVALID_INPUT\<rparr>"])
       (simp add: manualSearch_def Let_def inv m)
next
  fix calls rs
  assume "isValid (validateLocationInput query)" "geocodeLocation h query = (calls, Inr rs)"
  then show "manualSearch opts h query w =
           (w\<lparr>searchError := None\<rparr>, calls, Inr (slice0 rs (maxResults opts)))"
    by (simp add: manualSearch_def Let_def)
next
  fix rs :: "'a GeocodingResult list"
  assume "0 \<le> maxResults opts"
  then show "slice0 rs (maxResults opts) = take (nat (maxResults opts)) rs"
    by (simp add: slice0_def)
next
  fix calls e
  assume "isValid (validateLocationInput query)" "geocodeLocation h query = (calls, Inl e)"
  then show "manualSearch opts h query w = (w\<lparr>searchError := Some e\<rparr>, calls, Inl e)"
    by (simp add: manualSearch_def Let_def)
qed

lemma a_invalid: "\<not> isValid (validateLocationInput (Some (asc ''a'')))"
  using short_a by (simp add: validateLocationInput_def Let_def)

theorem manualSearch_paths_witness:
  "\<not> isValid (validateLocationInput (Some (asc ''a''))) \<and>
   manualSearch (default_options\<lparr>maxResults := 1\<rparr>) (host_of found) (Some (asc ''a'')) initial =
     (initial\<lparr>searchError :=
        Some (ErrorObject
          \<lparr>message = asc ''Location must be at least 2 characters long'', code = INVALID_INPUT\<rparr>)\<rparr>,
      [],
      Inl (ErrorObject
        \<lparr>message = asc ''Location must be at least 2 characters long'', code = INVALID_INPUT\<rparr>)) \<and>
   isValid (validateLocationInput (Some (asc ''Paris''))) \<and>
   manualSearch (default_options\<lparr>maxResults := 1\<rparr>) (host_of found) (Some (asc ''Paris''))
       (initial\<lparr>searchError := Some ReferenceError\<rparr>) =
     (initial, [search_url (asc ''Paris'')], Inr [toResult (host_of found) paris_record]) \<and>
   manualSearch (default_options\<lparr>maxResults := 1\<rparr>) (host_of (answers 500)) (Some (asc ''Paris''))
       initial =
     (initial\<lparr>searchError := Some ReferenceError\<rparr>, [search_url (asc ''Paris'')],
      Inl ReferenceError)"
proof -
  let ?opts = "default_options\<lparr>maxResults := 1\<rparr>"
  have m: "error (validateLocationInput (Some (asc ''a''))) =
             Some (asc ''Location must be at least 2 characters long'')"
  proof -
    have "asc ''a'' \<noteq> []" by (simp add: asc_def)
    with short_a show ?thesis by (simp add: validateLocationInput_def Let_def)
  qed
  from manualSearch_paths [of "Some (asc ''a'')" ?opts "host_of found" initial] a_invalid m
  have 1: "manualSearch ?opts (host_of found) (Some (asc ''a'')) initial =
     (initial\<lparr>searchError :=
        Some (ErrorObject
          \<lparr>message = asc ''Location must be at least 2 characters long'', code = INVALID_INPUT\<rparr>)\<rparr>,
      [],
      Inl (ErrorObject
        \<lparr>message = asc ''Location must be at least 2 characters long'', code = INVALID_INPUT\<rparr>))"
    by auto
  from manualSearch_paths [of "Some (asc ''Paris'')" ?opts "host_of found"
         "initial\<lparr>searchError := Some ReferenceError\<rparr>"] paris_valid search_found
  have 2: "manualSearch ?opts (host_of found) (Some (asc ''Paris''))
       (initial\<lparr>searchError := Some ReferenceError\<rparr>) =
     (initial, [search_url (asc ''Paris'')], Inr [toResult (host_of found) paris_record])"
    by (simp add: default_options_def initial_def)
  from manualSearch_paths [of "Some (asc ''Paris'')" ?opts "host_of (answers 500)" initial]
       paris_valid search_answered [of 500]
  have 3: "manualSearch ?opts (host_of (answers 500)) (Some (asc ''Paris'')) initial =
     (initial\<lparr>searchError := Some ReferenceError\<rparr>, [search_url (asc ''Paris'')],
      Inl ReferenceError)"
    by simp
  from 1 2 3 a_invalid paris_valid show ?thesis by simp
qed

section \<open>Debounced lookups\<close>

lemma elapse_no_timers:
  "timers w = [] \<Longrightarrow> elapse d w = w\<lparr>now := now w + d\<rparr>"
  by (simp add: elapse_def)

lemma elapse_one_timer:
  "timers w = [t] \<Longrightarrow>
   elapse d w = (if deadline t \<le> now w + d then (fire t w)\<lparr>now := now w + d\<rparr>
                 else w\<lparr>now := now w + d\<rparr>)"
  by (simp add: elapse_def Let_def)

lemma timer_delay_in_range:
  "0 \<le> delay \<Longrightarrow> delay < 2 ^ 31 \<Longrightarrow> timer_delay delay = nat delay"
  by (simp add: timer_delay_def ToInt32_def)

lemma timer_delay_300: "timer_delay 300 = 300"
  by (simp add: timer_delay_in_range)

lemma timer_delay_overflow: "timer_delay (2 ^ 31) = 0"
  by (simp add: timer_delay_def ToInt32_def)

lemma typed_Par:
  "handleSetSearchQuery default_options (asc ''Par'') initial =
     \<lparr>searchQuery = asc ''Par'', searchError = None, debouncedQuery = [], debounceRef = Some 1,
      now = 0, timers = [\<lparr>handle = 1, deadline = 300, captured = asc ''Par''\<rparr>],
      next_handle = 2, commits = []\<rparr>"
  by (simp add: handleSetSearchQuery_def updateDebouncedQuery_def setTimeout_def default_options_def
        initial_def asc_def Let_def timer_delay_300)

lemma waited_50:
  "elapse 50
     \<lparr>searchQuery = asc ''Par'', searchError = None, debouncedQuery = [], debounceRef = Some 1,
      now = 0, timers = [\<lparr>handle = 1, deadline = 300, captured = asc ''Par''\<rparr>],
      next_handle = 2, commits = []\<rparr> =
     \<lparr>searchQuery = asc ''Par'', searchError = None, debouncedQuery = [], debounceRef = Some 1,
      now = 50, timers = [\<lparr>handle = 1, deadline = 300, captured = asc ''Par''\<rparr>],
      next_handle = 2, commits = []\<rparr>"
  by (simp add: elapse_def)

lemma typed_Pa:
  "handleSetSearchQuery default_options (asc ''Pa'')
     \<lparr>searchQuery = asc ''Par'', searchError = None, debouncedQuery = [], debounceRef = Some 1,
      now = 50, timers = [\<lparr>handle = 1, deadline = 300, captured = asc ''Par''\<rparr>],
      next_handle = 2, commits = []\<rparr> =
     \<lparr>searchQuery = asc ''Pa'', searchError = None, debouncedQuery = [], debounceRef = Some 1,
      now = 50, timers = [\<lparr>handle = 1, deadline = 300, captured = asc ''Par''\<rparr>],
      next_handle = 2, commits = []\<rparr>"
  by (simp add: handleSetSearchQuery_def default_options_def asc_def)

lemma waited_300:
  "elapse 300
     \<lparr>searchQuery = asc ''Pa'', searchError = None, debouncedQuery = [], debounceRef = Some 1,
      now = 50, timers = [\<lparr>handle = 1, deadline = 300, captured = asc ''Par''\<rparr>],
      next_handle = 2, commits = []\<rparr> =
     \<lparr>searchQuery = asc ''Pa'', searchError = None, debouncedQuery = asc ''Par'',
      debounceRef = Some 1, now = 350, timers = [], next_handle = 2, commits = [asc ''Par'']\<rparr>"
  by (simp add: elapse_def fire_def)

text \<open>
  C1 fails on the code where it says that an update below the minimum length cancels any
  pending lookup. With the default options, \<open>Par\<close> is typed at time 0 and \<open>Pa\<close> at
  time 50: the timer set for \<open>Par\<close> is still pending after the second update, and when
  it is due it commits \<open>Par\<close> as the debounced query while the raw query is \<open>Pa\<close>.
\<close>

theorem stale_lookup_after_short_query:
  "run default_options [SetSearchQuery (asc ''Par''), Elapse 50] initial =
     \<lparr>searchQuery = asc ''Par'', searchError = None, debouncedQuery = [], debounceRef = Some 1,
      now = 50, timers = [\<lparr>handle = 1, deadline = 300, captured = asc ''Par''\<rparr>],
      next_handle = 2, commits = []\<rparr> \<and>
   run default_options [SetSearchQuery (asc ''Par''), Elapse 50, SetSearchQuery (asc ''Pa'')] initial =
     \<lparr>searchQuery = asc ''Pa'', searchError = None, debouncedQuery = [], debounceRef = Some 1,
      now = 50, timers = [\<lparr>handle = 1, deadline = 300, captured = asc ''Par''\<rparr>],
      next_handle = 2, commits = []\<rparr> \<and>
   run default_options
       [SetSearchQuery (asc ''Par''), Elapse 50, SetSearchQuery (asc ''Pa''), Elapse 300] initial =
     \<lparr>searchQuery = asc ''Pa'', searchError = None, debouncedQuery = asc ''Par'',
      debounceRef = Some 1, now = 350, timers = [], next_handle = 2, commits = [asc ''Par'']\<rparr>"
  by (simp only: run.simps step.simps typed_Par waited_50 typed_Pa waited_300 simp_thms)

text \<open>
  Every update stores the raw text and clears the failure; an update below the minimum
  length clears the debounced query and leaves every pending timer in place.
\<close>

lemma update_stores_query:
  "searchQuery (handleSetSearchQuery opts query w) = query \<and>
   searchError (handleSetSearchQuery opts query w) = None"
  by (simp add: handleSetSearchQuery_def updateDebouncedQuery_def setTimeout_def clearTimeout_def
        Let_def split: option.splits)

lemma short_query_clears_debounced:
  "int (length query) < minSearchLength opts \<Longrightarrow>
   debouncedQuery (handleSetSearchQuery opts query w) = []"
  by (simp add: handleSetSearchQuery_def Let_def)

lemma short_query_keeps_timers:
  "int (length query) < minSearchLength opts \<Longrightarrow>
   timers (handleSetSearchQuery opts query w) = timers w"
  by (simp add: handleSetSearchQuery_def Let_def)

lemma own_timer_only_cases:
  "own_timer_only w \<longleftrightarrow>
     timers w = [] \<or> (\<exists>t. timers w = [t] \<and> debounceRef w = Some (handle t))"
  by (auto simp add: own_timer_only_def split: list.splits)

lemma awaiting_cases:
  "awaiting opts q w \<longleftrightarrow>
     (\<exists>t. timers w = [t] \<and> debounceRef w = Some (handle t) \<and>
          deadline t = now w + timer_delay (debounceMs opts) \<and> captured t = q)"
  by (auto simp add: awaiting_def split: list.splits)

lemma own_timer_only_step:
  assumes "own_timer_only w"
  shows "own_timer_only (step opts e w)"
proof (cases e)
  case (SetSearchQuery q)
  with assms show ?thesis
    by (auto simp add: own_timer_only_cases handleSetSearchQuery_def updateDebouncedQuery_def
          setTimeout_def clearTimeout_def Let_def split: option.splits)
next
  case ClearResults
  with assms show ?thesis
    by (auto simp add: own_timer_only_cases clearResults_def clearTimeout_def Let_def
          split: option.splits)
next
  case (Elapse d)
  from assms consider "timers w = []" | t where "timers w = [t]" "debounceRef w = Some (handle t)"
    by (auto simp add: own_timer_only_cases)
  then show ?thesis
  proof cases
    case 1
    with Elapse show ?thesis
      by (simp add: own_timer_only_cases elapse_no_timers)
  next
    case 2
    with Elapse show ?thesis
      by (simp add: own_timer_only_cases elapse_one_timer fire_def)
  qed
qed

lemma own_timer_only_run:
  "own_timer_only w \<Longrightarrow> own_timer_only (run opts evs w)"
  by (induction evs arbitrary: w) (simp_all add: own_timer_only_step)

lemma own_timer_only_length:
  "own_timer_only w \<Longrightarrow> length (timers w) \<le> 1"
  by (auto simp add: own_timer_only_cases)

lemma long_query_keeps_debounced:
  "minSearchLength opts \<le> int (length q) \<Longrightarrow>
   debouncedQuery (handleSetSearchQuery opts q w) = debouncedQuery w \<and>
   commits (handleSetSearchQuery opts q w) = commits w \<and>
   now (handleSetSearchQuery opts q w) = now w"
  by (simp add: handleSetSearchQuery_def updateDebouncedQuery_def setTimeout_def clearTimeout_def
        Let_def split: option.splits)

lemma update_awaiting:
  assumes "own_timer_only w" "minSearchLength opts \<le> int (length q)"
  shows "awaiting opts q (handleSetSearchQuery opts q w)"
  using assms
  by (auto simp add: own_timer_only_cases awaiting_cases handleSetSearchQuery_def
        updateDebouncedQuery_def setTimeout_def clearTimeout_def Let_def split: option.splits)

lemma short_query_state:
  "int (length q) < minSearchLength opts \<Longrightarrow>
   commits (handleSetSearchQuery opts q w) = commits w \<and>
   now (handleSetSearchQuery opts q w) = now w"
  by (simp add: handleSetSearchQuery_def Let_def)

lemma observed_update_long:
  assumes "minSearchLength opts \<le> int (length q)" "queryKey c = debouncedQuery w"
  shows "observed_step opts h latency (SetSearchQuery q) (w, c) = (handleSetSearchQuery opts q w, c)"
  using assms long_query_keeps_debounced [of opts q w]
  by (simp add: render_def Let_def)

lemma observed_update_short:
  assumes "int (length q) < minSearchLength opts"
  shows "observed_step opts h latency (SetSearchQuery q) (w, c) =
           (handleSetSearchQuery opts q w, c\<lparr>queryKey := []\<rparr>)"
proof -
  from assms have "\<not> minSearchLength opts \<le> 0" by simp
  with assms short_query_clears_debounced [of q opts w] show ?thesis
    by (simp add: render_def subscribe_def Let_def)
qed

lemma observed_elapse_none:
  "timers w = [] \<Longrightarrow> observed_step opts h latency (Elapse d) (w, c) = (w\<lparr>now := now w + d\<rparr>, c)"
  by (simp add: Let_def)

lemma observed_elapse_early:
  assumes "awaiting opts q w" "g < timer_delay (debounceMs opts)"
  shows "observed_step opts h latency (Elapse g) (w, c) = (w\<lparr>now := now w + g\<rparr>, c)"
proof -
  from assms(1) obtain t where "timers w = [t]" "deadline t = now w + timer_delay (debounceMs opts)"
    by (auto simp add: awaiting_cases)
  with assms(2) show ?thesis by (simp add: Let_def)
qed

lemma observed_elapse_late:
  assumes "awaiting opts q w" "timer_delay (debounceMs opts) \<le> d"
  shows "\<exists>t. timers w = [t] \<and> captured t = q \<and>
             deadline t = now w + timer_delay (debounceMs opts) \<and>
             observed_step opts h latency (Elapse d) (w, c) =
               ((fire t w)\<lparr>now := now w + d\<rparr>, render opts h latency (fire t w) c)"
proof -
  from assms(1) obtain t where t: "timers w = [t]" "captured t = q"
      "deadline t = now w + timer_delay (debounceMs opts)"
    by (auto simp add: awaiting_cases)
  with assms(2) have "observed_step opts h latency (Elapse d) (w, c) =
               ((fire t w)\<lparr>now := now w + d\<rparr>, render opts h latency (fire t w) c)"
    by (simp add: Let_def fire_render_def)
  with t show ?thesis by blast
qed

lemma observed_run_append:
  "observed_run opts h latency (xs @ ys) s = observed_run opts h latency ys (observed_run opts h latency xs s)"
  by (induction xs arbitrary: s) simp_all

lemma burst_append: "burst (us @ vs) = burst us @ burst vs"
  by (induction us) auto

text \<open>The observer never changes what the controller does.\<close>

lemma fst_fire_render:
  "fst (foldl (\<lambda>s t. fire_render opts h latency t s) s ts) = foldl (\<lambda>w t. fire t w) (fst s) ts"
  by (induction ts arbitrary: s) (simp_all add: fire_render_def Let_def)

lemma fst_observed_step: "fst (observed_step opts h latency e s) = step opts e (fst s)"
  by (cases e; cases s) (simp_all add: Let_def elapse_def fst_fire_render)

lemma fst_observed_run: "fst (observed_run opts h latency evs s) = run opts evs (fst s)"
  by (induction evs arbitrary: s) (simp_all add: fst_observed_step)

lemma lookup_due_later: "lookup_due entry t \<Longrightarrow> t \<le> t' \<Longrightarrow> lookup_due entry t'"
  by (auto simp add: lookup_due_def split: option.splits)

text \<open>A burst of texts below the minimum length only turns the observer to the empty key.\<close>

lemma observed_burst_short:
  assumes "timers w = []"
      and "\<forall>(gap, q)\<in>set pre. int (length q) < minSearchLength opts"
  shows "\<exists>w'. observed_run opts h latency (burst pre) (w, c) =
                 (w', if pre = [] then c else c\<lparr>queryKey := []\<rparr>) \<and>
              timers w' = [] \<and> commits w' = commits w \<and> now w \<le> now w' \<and>
              debouncedQuery w' = (if pre = [] then debouncedQuery w else [])"
  using assms
proof (induction pre arbitrary: w c)
  case Nil
  then show ?case by simp
next
  case (Cons u us)
  obtain g q where u: "u = (g, q)" by (cases u)
  from Cons.prems(2) u have short: "int (length q) < minSearchLength opts" by simp
  let ?w = "handleSetSearchQuery opts q (w\<lparr>now := now w + g\<rparr>)"
  have step: "observed_run opts h latency (burst (u # us)) (w, c) =
                observed_run opts h latency (burst us) (?w, c\<lparr>queryKey := []\<rparr>)"
    using Cons.prems(1) short u
    by (simp add: observed_elapse_none observed_update_short del: observed_step.simps)
  have w: "timers ?w = []" "commits ?w = commits w" "now w \<le> now ?w" "debouncedQuery ?w = []"
    using Cons.prems(1) short
    by (simp_all add: short_query_keeps_timers short_query_state short_query_clears_debounced)
  from Cons.prems(2) have "\<forall>(gap, q)\<in>set us. int (length q) < minSearchLength opts"
    by simp
  from Cons.IH [OF w(1) this, of "c\<lparr>queryKey := []\<rparr>"]
  obtain w' where w': "observed_run opts h latency (burst us) (?w, c\<lparr>queryKey := []\<rparr>) =
        (w', if us = [] then c\<lparr>queryKey := []\<rparr> else c\<lparr>queryKey := [], queryKey := []\<rparr>)"
      "timers w' = []" "commits w' = commits ?w" "now ?w \<le> now w'"
      "debouncedQuery w' = (if us = [] then debouncedQuery ?w else [])"
    by blast
  show ?case
    by (rule exI [of _ w']) (use step w w' in auto)
qed

text \<open>
  A burst of texts that reach the minimum length, closer together than the delay, leaves
  the observer as it is and ends with the timer of the latest text pending.
\<close>

lemma observed_burst_long:
  assumes "post \<noteq> []"
      and "\<forall>(gap, q)\<in>set post. minSearchLength opts \<le> int (length q)"
      and "\<forall>(gap, q)\<in>set (tl post). gap < timer_delay (debounceMs opts)"
      and "timers w = [] \<or> (awaiting opts q0 w \<and> fst (hd post) < timer_delay (debounceMs opts))"
      and "queryKey c = debouncedQuery w"
  shows "\<exists>w'. observed_run opts h latency (burst post) (w, c) = (w', c) \<and>
              awaiting opts (snd (last post)) w' \<and> commits w' = commits w \<and> now w \<le> now w' \<and>
              debouncedQuery w' = debouncedQuery w"
  using assms
proof (induction post arbitrary: w q0)
  case Nil
  then show ?case by simp
next
  case (Cons u us)
  obtain g q where u: "u = (g, q)" by (cases u)
  from Cons.prems(2) u have long: "minSearchLength opts \<le> int (length q)" by simp
  let ?e = "w\<lparr>now := now w + g\<rparr>"
  let ?w = "handleSetSearchQuery opts q ?e"
  have e: "observed_step opts h latency (Elapse g) (w, c) = (?e, c)"
    using Cons.prems(4) u
    by (auto simp add: observed_elapse_none observed_elapse_early simp del: observed_step.simps)
  have "own_timer_only w"
    using Cons.prems(4) by (auto simp add: own_timer_only_cases awaiting_cases)
  then have o: "own_timer_only ?e"
    by (simp add: own_timer_only_cases)
  from Cons.prems(5) have k: "queryKey c = debouncedQuery ?e" by simp
  have step: "observed_run opts h latency (burst (u # us)) (w, c) =
                observed_run opts h latency (burst us) (?w, c)"
    using e observed_update_long [OF long k] u by (simp del: observed_step.simps)
  have a: "awaiting opts q ?w"
    by (rule update_awaiting [OF o long])
  from long_query_keeps_debounced [OF long, of ?e]
  have w: "debouncedQuery ?w = debouncedQuery w" "commits ?w = commits w" "now w \<le> now ?w"
    by simp_all
  show ?case
  proof (cases "us = []")
    case True
    show ?thesis
      by (rule exI [of _ ?w]) (use True step a w u in simp)
  next
    case False
    from Cons.prems(3) False have "fst (hd us) < timer_delay (debounceMs opts)"
      by (cases us) auto
    with a have 4: "timers ?w = [] \<or> (awaiting opts q ?w \<and> fst (hd us) < timer_delay (debounceMs opts))"
      by simp
    from Cons.prems(2) have 2: "\<forall>(gap, q)\<in>set us. minSearchLength opts \<le> int (length q)"
      by simp
    from Cons.prems(3) have 3: "\<forall>(gap, q)\<in>set (tl us). gap < timer_delay (debounceMs opts)"
      by (cases us) auto
    from Cons.prems(5) w(1) have 5: "queryKey c = debouncedQuery ?w" by simp
    from Cons.IH [OF False 2 3 4 5]
    obtain w' where w': "observed_run opts h latency (burst us) (?w, c) = (w', c)"
        "awaiting opts (snd (last us)) w'" "commits w' = commits ?w" "now ?w \<le> now w'"
        "debouncedQuery w' = debouncedQuery ?w"
      by blast
    show ?thesis
      by (rule exI [of _ w']) (use False step w w' in simp)
  qed
qed

lemma queryFn_lookup:
  "minSearchLength opts \<le> int (length q) \<Longrightarrow>
   queryFn opts h q =
     (case getSuggestions h q of
        (calls, Inr results) \<Rightarrow> (calls, slice0 results (maxResults opts))
      | (calls, Inl e) \<Rightarrow> (calls, []))"
  by (cases "q = []")
     (auto simp add: queryFn_def getSuggestions_def slice0_def split: prod.splits sum.splits)

text \<open>
  After such a burst and the delay, the observer has seen one more render, the one that
  follows the commit of the latest text.
\<close>

lemma observed_burst_commit:
  assumes "timers w = []"
      and "queryKey c = debouncedQuery w"
      and "\<forall>(gap, q)\<in>set pre. int (length q) < minSearchLength opts"
      and "\<forall>(gap, q)\<in>set post. minSearchLength opts \<le> int (length q)"
      and "post \<noteq> []"
      and "\<forall>(gap, q)\<in>set (tl (pre @ post)). gap < timer_delay (debounceMs opts)"
      and "timer_delay (debounceMs opts) \<le> d"
  shows "\<exists>W. snd (observed_run opts h latency (burst (pre @ post) @ [Elapse d]) (w, c)) =
               render opts h latency W (if pre = [] then c else c\<lparr>queryKey := []\<rparr>) \<and>
             debouncedQuery W = snd (last post) \<and> now w \<le> now W \<and>
             debouncedQuery (fst (observed_run opts h latency (burst (pre @ post) @ [Elapse d]) (w, c))) =
               snd (last post) \<and>
             commits (fst (observed_run opts h latency (burst (pre @ post) @ [Elapse d]) (w, c))) =
               commits w @ [snd (last post)]"
proof -
  let ?c1 = "if pre = [] then c else c\<lparr>queryKey := []\<rparr>"
  from observed_burst_short [OF assms(1) assms(3), of h latency c]
  obtain w1 where w1: "observed_run opts h latency (burst pre) (w, c) = (w1, ?c1)"
      "timers w1 = []" "commits w1 = commits w" "now w \<le> now w1"
      "debouncedQuery w1 = (if pre = [] then debouncedQuery w else [])"
    by blast
  from w1(5) assms(2) have k: "queryKey ?c1 = debouncedQuery w1" by simp
  have "set (tl post) \<subseteq> set post"
    by (cases post) auto
  moreover have "set post \<subseteq> set (tl (pre @ post)) \<or> pre = []"
    by (cases pre) auto
  ultimately have "set (tl post) \<subseteq> set (tl (pre @ post))"
    by auto
  with assms(6) have gaps: "\<forall>(gap, q)\<in>set (tl post). gap < timer_delay (debounceMs opts)"
    by blast
  from w1(2)
  have 4: "timers w1 = [] \<or> (awaiting opts [] w1 \<and> fst (hd post) < timer_delay (debounceMs opts))"
    by simp
  from observed_burst_long [OF assms(5) assms(4) gaps 4 k, of h latency]
  obtain w2 where w2: "observed_run opts h latency (burst post) (w1, ?c1) = (w2, ?c1)"
      "awaiting opts (snd (last post)) w2" "commits w2 = commits w1" "now w1 \<le> now w2"
      "debouncedQuery w2 = debouncedQuery w1"
    by blast
  from observed_elapse_late [OF w2(2) assms(7), of h latency ?c1]
  obtain t where t: "timers w2 = [t]" "captured t = snd (last post)"
      "observed_step opts h latency (Elapse d) (w2, ?c1) =
         ((fire t w2)\<lparr>now := now w2 + d\<rparr>, render opts h latency (fire t w2) ?c1)"
    by blast
  have run: "observed_run opts h latency (burst (pre @ post) @ [Elapse d]) (w, c) =
               ((fire t w2)\<lparr>now := now w2 + d\<rparr>, render opts h latency (fire t w2) ?c1)"
    using w1(1) w2(1) t(3)
    by (simp add: observed_run_append burst_append del: observed_step.simps)
  have f: "debouncedQuery (fire t w2) = snd (last post)" "now w \<le> now (fire t w2)"
      "commits (fire t w2) = commits w @ [snd (last post)]"
    using t(2) w1(3,4) w2(3,4) by (simp_all add: fire_def)
  show ?thesis
    by (rule exI [of _ "fire t w2"]) (use run f in simp)
qed

text \<open>
  C5, as the code has it. A burst starts with no timer pending and the observer on the
  debounced query; the delay is one the timer takes as it is; the updates are closer
  together than the delay; the texts below the minimum length, if any, come before the
  texts that reach it; and at least the delay passes after the last update. If some text
  reaches the minimum length, and the latest text is not the debounced query already
  committed, and no result for it is cached that is in flight or younger than
  \<open>staleTime\<close>, then exactly one lookup starts: \<open>queryFn\<close> runs once, for the latest
  text, where it is \<open>getSuggestions\<close> on that text cut to the maximum. If no text
  reaches the minimum length, no lookup starts. Whatever happens to the controller, at
  most one timer is pending.
\<close>

theorem burst_fires_once:
  assumes "timers w = []"
      and "queryKey c = debouncedQuery w"
      and "0 \<le> debounceMs opts"
      and "debounceMs opts < 2 ^ 31"
      and "\<forall>(gap, q)\<in>set pre. int (length q) < minSearchLength opts"
      and "\<forall>(gap, q)\<in>set post. minSearchLength opts \<le> int (length q)"
      and "\<forall>(gap, q)\<in>set (tl (pre @ post)). int gap < debounceMs opts"
      and "debounceMs opts \<le> int d"
  shows "(post \<noteq> [] \<and> (pre = [] \<longrightarrow> snd (last post) \<noteq> debouncedQuery w) \<and>
          lookup_due (cache c (snd (last post))) (now w) \<longrightarrow>
            lookups (snd (observed_run opts h latency (burst (pre @ post) @ [Elapse d]) (w, c))) =
              lookups c @ [snd (last post)] \<and>
            requests (snd (observed_run opts h latency (burst (pre @ post) @ [Elapse d]) (w, c))) =
              requests c @ fst (queryFn opts h (snd (last post))) \<and>
            queryFn opts h (snd (last post)) =
              (case getSuggestions h (snd (last post)) of
                 (calls, Inr results) \<Rightarrow> (calls, slice0 results (maxResults opts))
               | (calls, Inl e) \<Rightarrow> (calls, [])) \<and>
            debouncedQuery (fst (observed_run opts h latency (burst (pre @ post) @ [Elapse d]) (w, c))) =
              snd (last post)) \<and>
         (post = [] \<longrightarrow>
            lookups (snd (observed_run opts h latency (burst (pre @ post) @ [Elapse d]) (w, c))) =
              lookups c) \<and>
         (\<forall>evs. length (timers (fst (observed_run opts h latency evs (w, c)))) \<le> 1)"
proof (intro conjI impI)
  have D: "timer_delay (debounceMs opts) = nat (debounceMs opts)"
    using assms(3,4) by (rule timer_delay_in_range)
  from assms(7) D
  have gaps: "\<forall>(gap, q)\<in>set (tl (pre @ post)). gap < timer_delay (debounceMs opts)"
    by auto
  from assms(8) D have late: "timer_delay (debounceMs opts) \<le> d"
    by simp
  {
    assume "post = []"
    with observed_burst_short [OF assms(1) assms(5), of h latency c]
    show "lookups (snd (observed_run opts h latency (burst (pre @ post) @ [Elapse d]) (w, c))) =
            lookups c"
      by (auto simp add: observed_run_append observed_elapse_none simp del: observed_step.simps)
  }
  {
    assume a: "post \<noteq> [] \<and> (pre = [] \<longrightarrow> snd (last post) \<noteq> debouncedQuery w) \<and>
          lookup_due (cache c (snd (last post))) (now w)"
    let ?q = "snd (last post)"
    let ?c1 = "if pre = [] then c else c\<lparr>queryKey := []\<rparr>"
    from a have ne: "post \<noteq> []" by simp
    then have "last post \<in> set post" by simp
    with assms(6) have long: "minSearchLength opts \<le> int (length ?q)"
      by (cases "last post") auto
    from observed_burst_commit [OF assms(1) assms(2) assms(5) assms(6) ne gaps late, of h latency]
    obtain W where W:
        "snd (observed_run opts h latency (burst (pre @ post) @ [Elapse d]) (w, c)) =
           render opts h latency W ?c1"
        "debouncedQuery W = ?q" "now w \<le> now W"
        "debouncedQuery (fst (observed_run opts h latency (burst (pre @ post) @ [Elapse d]) (w, c))) = ?q"
      by blast
    have key: "?q \<noteq> queryKey ?c1"
    proof (cases "pre = []")
      case True
      with a assms(2) show ?thesis by simp
    next
      case False
      then obtain g s where "(g, s) \<in> set pre" by (cases pre) auto
      with assms(5) have "0 < minSearchLength opts" by fastforce
      with long have "?q \<noteq> []" by auto
      with False show ?thesis by simp
    qed
    from a W(3) have due: "lookup_due (cache ?c1 ?q) (now W)"
      by (auto intro: lookup_due_later)
    from W(1,2) key due long
    show "lookups (snd (observed_run opts h latency (burst (pre @ post) @ [Elapse d]) (w, c))) =
            lookups c @ [?q]"
         "requests (snd (observed_run opts h latency (burst (pre @ post) @ [Elapse d]) (w, c))) =
            requests c @ fst (queryFn opts h ?q)"
      by (auto simp add: render_def subscribe_def)
    from long show "queryFn opts h ?q =
              (case getSuggestions h ?q of
                 (calls, Inr results) \<Rightarrow> (calls, slice0 results (maxResults opts))
               | (calls, Inl e) \<Rightarrow> (calls, []))"
      by (rule queryFn_lookup)
    from W(4) show "debouncedQuery
        (fst (observed_run opts h latency (burst (pre @ post) @ [Elapse d]) (w, c))) = ?q" .
  }
  from assms(1) have "own_timer_only w"
    by (simp add: own_timer_only_cases)
  then have "\<forall>evs. length (timers (run opts evs w)) \<le> 1"
    by (intro allI own_timer_only_length own_timer_only_run)
  then show "\<forall>evs. length (timers (fst (observed_run opts h latency evs (w, c)))) \<le> 1"
    by (simp only: fst_observed_run fst_conv simp_thms)
qed

lemma timer_delay_overflow_numeral: "timer_delay 2147483648 = 0"
  by (simp add: timer_delay_def ToInt32_def)

lemmas evaluation = timer_delay_overflow_numeral timer_delay_300 Let_def render_def subscribe_def
  lookup_due_def staleTime_def fire_render_def fire_def handleSetSearchQuery_def
  updateDebouncedQuery_def setTimeout_def clearTimeout_def clearResults_def default_options_def
  initial_def initial_client_def asc_def slow_def

text \<open>
  C5 as stated fails in four ways, each with the default options but the last. Two texts
  below the minimum length, \<open>P\<close> and \<open>Pa\<close>, start no lookup. When \<open>Par\<close> is the
  debounced query already, the burst \<open>Pari\<close>, \<open>Par\<close> commits \<open>Par\<close> again and
  starts no lookup. When the result for \<open>Par\<close> is cached and the box was cleared,
  typing \<open>Par\<close> again starts no lookup. With a delay of \<open>2 ^ 31\<close> the timer of
  \<open>Par\<close> runs before \<open>Pari\<close> is typed 50 later, and two lookups start.
\<close>

theorem burst_lookup_counterexample:
  "lookups (snd (observed_run default_options (host_of Rejects) slow
     (burst [(0, asc ''P''), (50, asc ''Pa'')] @ [Elapse 300]) (initial, initial_client))) = [] \<and>
   lookups (snd (observed_run default_options (host_of Rejects) slow
     (burst [(0, asc ''Par'')] @ [Elapse 300]) (initial, initial_client))) = [asc ''Par''] \<and>
   lookups (snd (observed_run default_options (host_of Rejects) slow
     (burst [(0, asc ''Par'')] @ [Elapse 300] @
      burst [(1000, asc ''Pari''), (50, asc ''Par'')] @ [Elapse 300])
     (initial, initial_client))) = [asc ''Par''] \<and>
   lookups (snd (observed_run default_options (host_of Rejects) slow
     (burst [(0, asc ''Par'')] @ [Elapse 300, ClearResults] @
      burst [(1000, asc ''Par'')] @ [Elapse 300])
     (initial, initial_client))) = [asc ''Par''] \<and>
   lookups (snd (observed_run (default_options\<lparr>debounceMs := 2 ^ 31\<rparr>) (host_of Rejects) slow
     (burst [(0, asc ''Par''), (50, asc ''Pari'')] @ [Elapse 300])
     (initial, initial_client))) = [asc ''Par'', asc ''Pari'']"
  by (simp add: evaluation)

lemma suggestions_Pari:
  "getSuggestions (host_of found) (asc ''Pari'') =
     ([search_url (asc ''Pari'')],
      Inr [toResult (host_of found) paris_record, toResult (host_of found) oslo_record])"
  by (simp add: getSuggestions_def geocodeLocation_def try_block_def host_of_def found_def
        response_ok_def trim_def isWhiteSpace_def asc_def)

lemma queryFn_Pari:
  "queryFn default_options (host_of found) (asc ''Pari'') =
     ([search_url (asc ''Pari'')],
      [toResult (host_of found) paris_record, toResult (host_of found) oslo_record])"
proof -
  have "asc ''Pari'' \<noteq> []" "\<not> int (length (asc ''Pari'')) < minSearchLength default_options"
    by (simp_all add: asc_def default_options_def)
  then show ?thesis
    by (simp add: queryFn_def suggestions_Pari slice0_def default_options_def)
qed

theorem burst_fires_once_witness:
  "timers initial = [] \<and>
   queryKey (initial_client :: jsstring query_client) = debouncedQuery initial \<and>
   0 \<le> debounceMs default_options \<and> debounceMs default_options < 2 ^ 31 \<and>
   int (length (asc ''P'')) < minSearchLength default_options \<and>
   int (length (asc ''Pa'')) < minSearchLength default_options \<and>
   minSearchLength default_options \<le> int (length (asc ''Par'')) \<and>
   minSearchLength default_options \<le> int (length (asc ''Pari'')) \<and>
   int 50 < debounceMs default_options \<and> debounceMs default_options \<le> int 300 \<and>
   asc ''Pari'' \<noteq> debouncedQuery initial \<and>
   lookup_due (cache (initial_client :: jsstring query_client) (asc ''Pari'')) (now initial) \<and>
   lookups (snd (observed_run default_options (host_of found) slow
     (burst ([(0, asc ''P''), (50, asc ''Pa'')] @ [(50, asc ''Par''), (50, asc ''Pari'')]) @ [Elapse 300])
     (initial, initial_client))) = [asc ''Pari''] \<and>
   requests (snd (observed_run default_options (host_of found) slow
     (burst ([(0, asc ''P''), (50, asc ''Pa'')] @ [(50, asc ''Par''), (50, asc ''Pari'')]) @ [Elapse 300])
     (initial, initial_client))) = [search_url (asc ''Pari'')] \<and>
   queryFn default_options (host_of found) (asc ''Pari'') =
     ([search_url (asc ''Pari'')],
      [toResult (host_of found) paris_record, toResult (host_of found) oslo_record]) \<and>
   debouncedQuery (fst (observed_run default_options (host_of found) slow
     (burst ([(0, asc ''P''), (50, asc ''Pa'')] @ [(50, asc ''Par''), (50, asc ''Pari'')]) @ [Elapse 300])
     (initial, initial_client))) = asc ''Pari'' \<and>
   lookups (snd (observed_run default_options (host_of found) slow
     (burst ([] @ [(50, asc ''Par''), (50, asc ''Pari'')]) @ [Elapse 300])
     (initial, initial_client))) = [asc ''Pari''] \<and>
   lookups (snd (observed_run default_options (host_of found) slow
     (burst ([(0, asc ''P''), (50, asc ''Pa'')] @ []) @ [Elapse 300])
     (initial, initial_client))) = [] \<and>
   length (timers (fst (observed_run default_options (host_of found) slow
     [SetSearchQuery (asc ''Par''), Elapse 50, SetSearchQuery (asc ''Pari'')]
     (initial, initial_client)))) \<le> 1"
proof -
  let ?pre = "[(0::nat, asc ''P''), (50, asc ''Pa'')]"
  let ?post = "[(50::nat, asc ''Par''), (50, asc ''Pari'')]"
  let ?none = "[] :: (nat \<times> jsstring) list"
  let ?run = "\<lambda>pre post. observed_run default_options (host_of found) slow
     (burst (pre @ post) @ [Elapse 300]) (initial, initial_client)"
  have t: "timers initial = []"
      "queryKey (initial_client :: jsstring query_client) = debouncedQuery initial"
      "lookups (initial_client :: jsstring query_client) = []"
      "requests (initial_client :: jsstring query_client) = []"
    by (simp_all add: initial_def initial_client_def)
  have r: "0 \<le> debounceMs default_options" "debounceMs default_options < 2 ^ 31"
      "debounceMs default_options \<le> int 300" "int 50 < debounceMs default_options"
    by (simp_all add: default_options_def)
  have len: "int (length (asc ''P'')) < minSearchLength default_options"
      "int (length (asc ''Pa'')) < minSearchLength default_options"
      "minSearchLength default_options \<le> int (length (asc ''Par''))"
      "minSearchLength default_options \<le> int (length (asc ''Pari''))"
    by (simp_all add: default_options_def asc_def)
  have short: "\<forall>(gap, q)\<in>set ?pre. int (length q) < minSearchLength default_options"
      "\<forall>(gap, q)\<in>set ?none. int (length q) < minSearchLength default_options"
    using len by simp_all
  have long: "\<forall>(gap, q)\<in>set ?post. minSearchLength default_options \<le> int (length q)"
      "\<forall>(gap, q)\<in>set ?none. minSearchLength default_options \<le> int (length q)"
    using len by simp_all
  have gaps: "\<forall>(gap, q)\<in>set (tl (?pre @ ?post)). int gap < debounceMs default_options"
      "\<forall>(gap, q)\<in>set (tl (?none @ ?post)). int gap < debounceMs default_options"
      "\<forall>(gap, q)\<in>set (tl (?pre @ ?none)). int gap < debounceMs default_options"
    using r(4) by simp_all
  have k: "asc ''Pari'' \<noteq> debouncedQuery initial"
    by (simp add: initial_def asc_def)
  have due: "lookup_due (cache (initial_client :: jsstring query_client) (asc ''Pari'')) (now initial)"
    by (simp add: initial_client_def lookup_due_def)
  have last: "snd (last ?post) = asc ''Pari''" "?post \<noteq> []" "?pre \<noteq> []"
    by simp_all
  note B = burst_fires_once [OF t(1) t(2) r(1) r(2) short(1) long(1) gaps(1) r(3),
      of "host_of found" slow]
  from B last due
  have "lookups (snd (?run ?pre ?post)) = lookups (initial_client :: jsstring query_client) @ [asc ''Pari''] \<and>
        requests (snd (?run ?pre ?post)) =
          requests (initial_client :: jsstring query_client) @
          fst (queryFn default_options (host_of found) (asc ''Pari'')) \<and>
        debouncedQuery (fst (?run ?pre ?post)) = asc ''Pari''"
    by simp
  with t(3,4) queryFn_Pari
  have 1: "lookups (snd (?run ?pre ?post)) = [asc ''Pari'']"
      "requests (snd (?run ?pre ?post)) = [search_url (asc ''Pari'')]"
      "debouncedQuery (fst (?run ?pre ?post)) = asc ''Pari''"
    by simp_all
  from B have "\<forall>evs. length (timers (fst (observed_run default_options (host_of found) slow evs
      (initial, initial_client)))) \<le> 1"
    by blast
  then have 2: "length (timers (fst (observed_run default_options (host_of found) slow
      [SetSearchQuery (asc ''Par''), Elapse 50, SetSearchQuery (asc ''Pari'')]
      (initial, initial_client)))) \<le> 1"
    by (rule spec)
  from burst_fires_once [OF t(1) t(2) r(1) r(2) short(2) long(1) gaps(2) r(3),
      of "host_of found" slow] last k due
  have "lookups (snd (?run ?none ?post)) =
          lookups (initial_client :: jsstring query_client) @ [asc ''Pari'']"
    by simp
  with t(3) have 3: "lookups (snd (?run ?none ?post)) = [asc ''Pari'']"
    by simp
  from burst_fires_once [OF t(1) t(2) r(1) r(2) short(1) long(2) gaps(3) r(3),
      of "host_of found" slow]
  have "lookups (snd (?run ?pre ?none)) = lookups (initial_client :: jsstring query_client)"
    by blast
  with t(3) have 4: "lookups (snd (?run ?pre ?none)) = []"
    by simp
  from 1 2 3 4 t(1,2) r len k due queryFn_Pari show ?thesis
    by (simp only: simp_thms)
qed

end
